theory Spec2Isabelle
  imports Main "HOL-Library.Sublist"
begin

section \<open>Python strings\<close>

text \<open>
  A Python \<open>str\<close> is modelled as a \<open>string\<close>: a list of 8-bit characters, each standing
  for the code point of the same number. The model is therefore about text whose code
  points are below 256, and whose upper-case form stays below 256 (all such text but
  the micro sign, 181, and y with diaeresis, 255). The predicates of \<open>str\<close> that the
  program uses are written out for that range: \<open>str.isspace\<close> holds of the code points
  9 to 13, 28 to 32, 133 and 160; \<open>str.isdigit\<close> holds of the ten decimal digits and of
  the superscript digits 178, 179 and 185, which \<open>int\<close> and \<open>float\<close> refuse with a
  \<open>ValueError\<close>.
\<close>

definition py_isspace :: "char \<Rightarrow> bool" where
  "py_isspace c =
     (let n = (of_char c :: nat)
      in (9 \<le> n \<and> n \<le> 13) \<or> (28 \<le> n \<and> n \<le> 32) \<or> n = 133 \<or> n = 160)"

definition py_isdecimal_char :: "char \<Rightarrow> bool" where
  "py_isdecimal_char c = (let n = (of_char c :: nat) in 48 \<le> n \<and> n \<le> 57)"

definition py_isdigit_char :: "char \<Rightarrow> bool" where
  "py_isdigit_char c =
     (let n = (of_char c :: nat) in (48 \<le> n \<and> n \<le> 57) \<or> n = 178 \<or> n = 179 \<or> n = 185)"

text \<open>\<open>s.isdigit()\<close>: the string is not empty and each character is a digit.\<close>

definition py_isdigit :: "string \<Rightarrow> bool" where
  "py_isdigit s = (s \<noteq> [] \<and> list_all py_isdigit_char s)"

text \<open>\<open>s.strip()\<close>, \<open>s.rstrip(',')\<close>, \<open>s.startswith(p)\<close>, \<open>s.endswith(p)\<close>.\<close>

definition py_lstrip :: "string \<Rightarrow> string" where
  "py_lstrip s = dropWhile py_isspace s"

definition py_rstrip :: "string \<Rightarrow> string" where
  "py_rstrip s = rev (dropWhile py_isspace (rev s))"

definition py_strip :: "string \<Rightarrow> string" where
  "py_strip s = py_rstrip (py_lstrip s)"

definition py_rstrip_chars :: "string \<Rightarrow> string \<Rightarrow> string" where
  "py_rstrip_chars chars s = rev (dropWhile (\<lambda>c. c \<in> set chars) (rev s))"

definition py_startswith :: "string \<Rightarrow> string \<Rightarrow> bool" where
  "py_startswith s p = (take (length p) s = p)"

definition py_endswith :: "string \<Rightarrow> string \<Rightarrow> bool" where
  "py_endswith s p = (length p \<le> length s \<and> drop (length s - length p) s = p)"

text \<open>
  \<open>s.replace(old, new)\<close>: the occurrences of \<open>old\<close> are found from the left and do not
  overlap. With an empty \<open>old\<close>, Python puts \<open>new\<close> before each character and at the end.
\<close>

fun py_replace :: "string \<Rightarrow> string \<Rightarrow> string \<Rightarrow> string" where
  "py_replace old new [] = (if old = [] then new else [])"
| "py_replace old new (c # cs) =
     (if old = [] then new @ c # py_replace old new cs
      else if take (length old) (c # cs) = old
        then new @ py_replace old new (drop (length old - 1) cs)
        else c # py_replace old new cs)"

text \<open>\<open>s.replace(old, new, 1)\<close> for a one-character \<open>old\<close>: only the first occurrence.\<close>

fun py_replace_first :: "char \<Rightarrow> string \<Rightarrow> string \<Rightarrow> string" where
  "py_replace_first old new [] = []"
| "py_replace_first old new (c # cs) =
     (if c = old then new @ cs else c # py_replace_first old new cs)"

text \<open>
  \<open>s.upper()\<close>: the letters a to z and the Latin-1 letters 224 to 254 (but the division
  sign, 247) move down by 32; the sharp s, 223, becomes \<open>SS\<close>; every other character is
  kept. The capitals of 181 and 255 lie above 255, outside the modelled range.
\<close>

definition py_upper_char :: "char \<Rightarrow> string" where
  "py_upper_char c =
     (let n = (of_char c :: nat)
      in if (97 \<le> n \<and> n \<le> 122) \<or> (224 \<le> n \<and> n \<le> 254 \<and> n \<noteq> 247) then [char_of (n - 32)]
         else if n = 223 then ''SS''
         else [c])"

definition py_upper :: "string \<Rightarrow> string" where
  "py_upper s = concat (map py_upper_char s)"

text \<open>\<open>str(n)\<close> of an integer, and \<open>int(s)\<close> of a string of decimal digits.\<close>

function str_digits :: "int \<Rightarrow> string" where
  "str_digits n =
     (if n < 10 then [char_of (48 + n)]
      else str_digits (n div 10) @ [char_of (48 + n mod 10)])"
  by pat_completeness auto
termination
  by (relation "measure nat") auto

definition str_int :: "int \<Rightarrow> string" where
  "str_int i = (if i < 0 then CHR ''-'' # str_digits (- i) else str_digits i)"

definition digit_val :: "char \<Rightarrow> int" where
  "digit_val c = int (of_char c) - 48"

definition int_of_digits :: "string \<Rightarrow> int" where
  "int_of_digits s = foldl (\<lambda>acc c. 10 * acc + digit_val c) 0 s"

section \<open>The address text (clean_address)\<close>

text \<open>
  \<open>process_address\<close> inside \<open>clean_address\<close>:
  \<^verbatim>\<open>address.replace('\n', ' ').replace(', ,', ',').rstrip(',').strip()\<close>, then the suffix.
\<close>

definition process_address :: "string \<Rightarrow> string" where
  "process_address address =
     (let address1 =
            py_strip (py_rstrip_chars '','' (py_replace '', ,'' '','' (py_replace [CHR 0x0A] '' '' address)))
      in if \<not> py_endswith address1 '', MALAYSIA'' then address1 @ '', MALAYSIA'' else address1)"

text \<open>
  The same steps written from their description, each on its own: every newline becomes
  a space; reading from the left, each comma, space, comma becomes one comma and reading
  goes on behind it; the commas at the end go; then the whitespace at both ends goes.
\<close>

definition newline_to_space :: "string \<Rightarrow> string" where
  "newline_to_space s = map (\<lambda>c. if c = CHR 0x0A then CHR '' '' else c) s"

fun collapse_comma_space_comma :: "string \<Rightarrow> string" where
  "collapse_comma_space_comma (a # b # c # cs) =
     (if a = CHR '','' \<and> b = CHR '' '' \<and> c = CHR '',''
      then CHR '','' # collapse_comma_space_comma cs
      else a # collapse_comma_space_comma (b # c # cs))"
| "collapse_comma_space_comma cs = cs"

definition drop_trailing_commas :: "string \<Rightarrow> string" where
  "drop_trailing_commas s = take (length s - length (takeWhile (\<lambda>c. c = CHR '','') (rev s))) s"

definition trim :: "string \<Rightarrow> string" where
  "trim s =
     (let t = dropWhile py_isspace s
      in take (length t - length (takeWhile py_isspace (rev t))) t)"

definition cleanAddress :: "string \<Rightarrow> string" where
  "cleanAddress text =
     (let t = trim (drop_trailing_commas (collapse_comma_space_comma (newline_to_space text)))
      in if suffix '', MALAYSIA'' t then t else t @ '', MALAYSIA'')"

section \<open>Cells, errors, frames\<close>

text \<open>
  A cell of a pandas \<open>DataFrame\<close> holds a string, an integer, a float, a boolean, \<open>NaN\<close>
  or \<open>None\<close>. A float other than \<open>NaN\<close> is kept as its \<open>repr\<close> (which names it
  uniquely), so that \<open>str\<close> of it is that text and no floating-point arithmetic is needed.
\<close>

datatype cell = StrV string | IntV int | FltV string | BoolV bool | NaN | NoneV

definition py_str :: "cell \<Rightarrow> string" where
  "py_str v =
     (case v of
        StrV s \<Rightarrow> s
      | IntV i \<Rightarrow> str_int i
      | FltV r \<Rightarrow> r
      | BoolV b \<Rightarrow> (if b then ''True'' else ''False'')
      | NaN \<Rightarrow> ''nan''
      | NoneV \<Rightarrow> ''None'')"

text \<open>\<open>pd.notna(x)\<close>.\<close>

definition notna :: "cell \<Rightarrow> bool" where
  "notna v = (v \<noteq> NaN \<and> v \<noteq> NoneV)"

datatype py_error = KeyError string | AttributeError | TypeError | ValueError | MergeError

definition and_then :: "'e + 'a \<Rightarrow> ('a \<Rightarrow> 'e + 'b) \<Rightarrow> 'e + 'b" where
  "and_then m f = (case m of Inl e \<Rightarrow> Inl e | Inr x \<Rightarrow> f x)"

text \<open>\<open>Series.apply(f)\<close> and a list comprehension: the first exception ends the traversal.\<close>

fun map_err :: "('a \<Rightarrow> 'e + 'b) \<Rightarrow> 'a list \<Rightarrow> 'e + 'b list" where
  "map_err f [] = Inr []"
| "map_err f (x # xs) =
     and_then (f x) (\<lambda>y. and_then (map_err f xs) (\<lambda>ys. Inr (y # ys)))"

text \<open>
  A frame is its column names, in order, and its rows, each a list of cells in the order
  of the columns. The model is about frames whose column names are distinct; a name is
  looked up at its first position.
\<close>

record dataframe =
  columns :: "string list"
  rows :: "cell list list"

definition wf_frame :: "dataframe \<Rightarrow> bool" where
  "wf_frame df = list_all (\<lambda>r. length r = length (columns df)) (rows df)"

text \<open>\<open>df.empty\<close>: one of the two axes has length 0.\<close>

definition df_empty :: "dataframe \<Rightarrow> bool" where
  "df_empty df = (columns df = [] \<or> rows df = [])"

definition col_pos :: "string list \<Rightarrow> string \<Rightarrow> nat" where
  "col_pos cols c = length (takeWhile (\<lambda>x. x \<noteq> c) cols)"

text \<open>\<open>dataframe[c]\<close>, read.\<close>

definition get_col :: "dataframe \<Rightarrow> string \<Rightarrow> py_error + cell list" where
  "get_col df c =
     (if c \<in> set (columns df)
      then Inr (map (\<lambda>r. r ! col_pos (columns df) c) (rows df))
      else Inl (KeyError c))"

text \<open>\<open>dataframe[c] = values\<close>, one value for each row: an existing column is overwritten in
  place, a new one is added as the last column.\<close>

definition set_col :: "dataframe \<Rightarrow> string \<Rightarrow> cell list \<Rightarrow> dataframe" where
  "set_col df c vs =
     (if c \<in> set (columns df)
      then df\<lparr>rows := map (\<lambda>(r, v). r[col_pos (columns df) c := v]) (zip (rows df) vs)\<rparr>
      else \<lparr>columns = columns df @ [c], rows = map (\<lambda>(r, v). r @ [v]) (zip (rows df) vs)\<rparr>)"

text \<open>\<open>dataframe[c] = value\<close> with one scalar for all rows.\<close>

definition set_col_scalar :: "dataframe \<Rightarrow> string \<Rightarrow> cell \<Rightarrow> dataframe" where
  "set_col_scalar df c v = set_col df c (replicate (length (rows df)) v)"

text \<open>\<open>dataframe[names]\<close> with a list of names.\<close>

definition select_columns :: "dataframe \<Rightarrow> string list \<Rightarrow> py_error + dataframe" where
  "select_columns df names =
     (case filter (\<lambda>c. c \<notin> set (columns df)) names of
        [] \<Rightarrow> Inr \<lparr>columns = names,
                  rows = map (\<lambda>r. map (\<lambda>c. r ! col_pos (columns df) c) names) (rows df)\<rparr>
      | c # _ \<Rightarrow> Inl (KeyError c))"

text \<open>The record of a row: the value under each column name.\<close>

definition field :: "dataframe \<Rightarrow> cell list \<Rightarrow> string \<Rightarrow> cell option" where
  "field df r c = map_of (zip (columns df) r) c"

section \<open>SchemaNormalizer\<close>

text \<open>\<open>dataframe.drop(columns=columns_to_drop, axis=1, errors='ignore')\<close>.\<close>

definition drop_columns :: "dataframe \<Rightarrow> string list \<Rightarrow> dataframe" where
  "drop_columns df columns_to_drop =
     \<lparr>columns = filter (\<lambda>c. c \<notin> set columns_to_drop) (columns df),
      rows = map (\<lambda>r. map snd (filter (\<lambda>(c, v). c \<notin> set columns_to_drop) (zip (columns df) r)))
               (rows df)\<rparr>"

definition original_order :: "string list" where
  "original_order =
     [''program'', ''date'', ''ic'', ''name'', ''age'', ''ethnicity'', ''sex'',
      ''state'', ''district'', ''postcode'', ''lat'', ''lon'', ''address'', ''phone'',
      ''email'', ''salary_monthly'', ''miskin'', ''miskin_tegar'', ''str_mof'', ''belum_disemak'']"

text \<open>The list \<open>new_order\<close> of \<open>reorder_columns\<close>, and the function.\<close>

definition new_order :: "dataframe \<Rightarrow> string list" where
  "new_order df =
     (let existing_columns = filter (\<lambda>col. col \<in> set (columns df)) original_order;
          additional_columns = filter (\<lambda>col. col \<notin> set original_order) (columns df)
      in existing_columns @ additional_columns)"

definition reorder_columns :: "dataframe \<Rightarrow> py_error + dataframe" where
  "reorder_columns df = select_columns df (new_order df)"

definition column_mapping :: "(string \<times> string) list" where
  "column_mapping =
     [(''form_category'', ''program''), (''createdAt'', ''date''), (''ic_number'', ''ic''),
      (''name'', ''name''), (''race'', ''ethnicity''), (''gender'', ''sex''),
      (''state'', ''state''), (''postcode'', ''postcode''), (''address'', ''address''),
      (''mobile_number'', ''phone''), (''email'', ''email''),
      (''monthly_income'', ''salary_monthly'')]"

text \<open>\<open>dataframe.rename(columns=mapping)\<close>.\<close>

definition rename_with :: "(string \<times> string) list \<Rightarrow> dataframe \<Rightarrow> dataframe" where
  "rename_with mapping df =
     df\<lparr>columns := map (\<lambda>c. case map_of mapping c of Some n \<Rightarrow> n | None \<Rightarrow> c) (columns df)\<rparr>"

definition rename_columns :: "dataframe \<Rightarrow> dataframe" where
  "rename_columns df = rename_with column_mapping df"

text \<open>\<open>series.map(value_mapping).fillna(series)\<close>, cell by cell: a value that is a key of the
  mapping is replaced, any other value is kept.\<close>

definition map_fillna :: "(string \<times> string) list \<Rightarrow> cell \<Rightarrow> cell" where
  "map_fillna value_mapping v =
     (case v of
        StrV s \<Rightarrow> (case map_of value_mapping s of Some t \<Rightarrow> StrV t | None \<Rightarrow> v)
      | _ \<Rightarrow> v)"

definition rename_program_values :: "dataframe \<Rightarrow> (string \<times> string) list \<Rightarrow> py_error + dataframe" where
  "rename_program_values df value_mapping =
     (if ''program'' \<in> set (columns df)
      then and_then (get_col df ''program'')
             (\<lambda>vs. Inr (set_col df ''program'' (map (map_fillna value_mapping) vs)))
      else Inr df)"

section \<open>FieldFormatter\<close>

text \<open>\<open>dataframe['date'].astype(str).str[:10]\<close>.\<close>

definition reformat_dates :: "dataframe \<Rightarrow> py_error + dataframe" where
  "reformat_dates df =
     (if ''date'' \<in> set (columns df)
      then and_then (get_col df ''date'')
             (\<lambda>vs. Inr (set_col df ''date'' (map (\<lambda>v. StrV (take 10 (py_str v))) vs)))
      else Inr df)"

text \<open>
  \<open>series.str.upper()\<close>. The \<open>.str\<close> accessor raises \<open>AttributeError\<close> on a column that
  holds no string, unless the column holds missing values only and a \<open>None\<close> among them
  (an all-\<open>NaN\<close> column is a float column). A \<open>None\<close> stays \<open>None\<close>; any other cell that
  is not a string becomes \<open>NaN\<close>.
\<close>

definition is_str :: "cell \<Rightarrow> bool" where
  "is_str v = (case v of StrV s \<Rightarrow> True | _ \<Rightarrow> False)"

definition str_accessor_ok :: "cell list \<Rightarrow> bool" where
  "str_accessor_ok vs =
     (list_ex is_str vs \<or> (list_all (\<lambda>v. \<not> notna v) vs \<and> list_ex (\<lambda>v. v = NoneV) vs))"

definition str_upper :: "cell list \<Rightarrow> py_error + cell list" where
  "str_upper vs =
     (if str_accessor_ok vs
      then Inr (map (\<lambda>v. case v of StrV s \<Rightarrow> StrV (py_upper s) | NoneV \<Rightarrow> NoneV | _ \<Rightarrow> NaN) vs)
      else Inl AttributeError)"

definition format_uppercase :: "dataframe \<Rightarrow> py_error + dataframe" where
  "format_uppercase df =
     and_then
       (if ''name'' \<in> set (columns df)
        then and_then (get_col df ''name'')
               (\<lambda>vs. and_then (str_upper vs) (\<lambda>us. Inr (set_col df ''name'' us)))
        else Inr df)
       (\<lambda>df. if ''address'' \<in> set (columns df)
             then and_then (get_col df ''address'')
                    (\<lambda>vs. and_then (str_upper vs) (\<lambda>us. Inr (set_col df ''address'' us)))
             else Inr df)"

definition format_number :: "cell \<Rightarrow> cell" where
  "format_number number =
     (let number1 = py_strip (py_str number)
      in if py_startswith number1 ''1'' then StrV (''+60'' @ number1)
         else StrV (''+601'' @ number1))"

definition format_phone_numbers :: "dataframe \<Rightarrow> py_error + dataframe" where
  "format_phone_numbers df =
     (if ''phone'' \<in> set (columns df)
      then and_then (get_col df ''phone'')
             (\<lambda>vs. Inr (set_col df ''phone'' (map format_number vs)))
      else Inr df)"

text \<open>
  The lambda of \<open>format_salary\<close>. Its formatting \<^verbatim>\<open>f"{float(x):.2f}"\<close> is floating-point
  arithmetic and is a parameter here, \<open>two_decimals\<close>, which may raise.
\<close>

definition salary_value :: "(cell \<Rightarrow> py_error + string) \<Rightarrow> cell \<Rightarrow> py_error + cell" where
  "salary_value two_decimals x =
     (if notna x \<and> py_isdigit (py_replace_first (CHR ''.'') [] (py_str x))
      then and_then (two_decimals x) (\<lambda>s. Inr (StrV s))
      else Inr x)"

definition format_salary :: "(cell \<Rightarrow> py_error + string) \<Rightarrow> dataframe \<Rightarrow> py_error + dataframe" where
  "format_salary two_decimals df =
     (if ''salary_monthly'' \<in> set (columns df)
      then and_then (get_col df ''salary_monthly'')
             (\<lambda>vs. and_then (map_err (salary_value two_decimals) vs)
                (\<lambda>ws. Inr (set_col df ''salary_monthly'' ws)))
      else Inr df)"

text \<open>
  \<open>calculate_age_from_ic\<close>: \<open>len\<close> of a value that is not a string raises \<open>TypeError\<close>;
  \<open>int\<close> of two characters that \<open>isdigit\<close> accepts and that are not decimal digits raises
  \<open>ValueError\<close>.
\<close>

definition calculate_age_from_ic :: "cell \<Rightarrow> py_error + cell" where
  "calculate_age_from_ic ic_number =
     (case ic_number of
        StrV s \<Rightarrow>
          if length s \<noteq> 12 \<or> \<not> py_isdigit s then Inr (StrV ''IC ERROR'')
          else
            (let year_str = take 2 s
             in if list_all py_isdecimal_char year_str
                then (let year_int = int_of_digits year_str;
                          birth_year = (if year_int \<le> 20 then 2000 + year_int else 1900 + year_int);
                          current_year = 2024
                      in Inr (IntV (current_year - birth_year)))
                else Inl ValueError)
      | _ \<Rightarrow> Inl TypeError)"

definition age_format :: "dataframe \<Rightarrow> py_error + dataframe" where
  "age_format df =
     and_then (get_col df ''ic'')
       (\<lambda>ics. and_then (map_err calculate_age_from_ic ics)
          (\<lambda>ages. Inr (set_col df ''age'' ages)))"

section \<open>AddressEnricher and GeocodeClient\<close>

text \<open>\<open>clean_address\<close>: \<open>address.replace\<close> on a value that is not a string raises
  \<open>AttributeError\<close>.\<close>

definition clean_address :: "cell list \<Rightarrow> py_error + cell list" where
  "clean_address address_list =
     map_err (\<lambda>address. case address of
                  StrV s \<Rightarrow> Inr (StrV (process_address s))
                | _ \<Rightarrow> Inl AttributeError)
       address_list"

text \<open>
  What \<open>gmaps.geocode(address)\<close> does is a parameter: it raises \<open>ApiError\<close>, raises another
  exception, or returns a list of candidates. A candidate carries two coordinates under
  \<open>['geometry']['location']\<close>, or lacks them. A coordinate is a float, given by its \<open>repr\<close>,
  or \<open>NaN\<close>, or \<open>None\<close> (a JSON \<open>null\<close>): the code hands on whatever it finds there.
\<close>

datatype coordinate = Degrees string | NanCoordinate | NoCoordinate

definition coordinate_cell :: "coordinate \<Rightarrow> cell" where
  "coordinate_cell x =
     (case x of Degrees r \<Rightarrow> FltV r | NanCoordinate \<Rightarrow> NaN | NoCoordinate \<Rightarrow> NoneV)"

datatype candidate = Location coordinate coordinate | Malformed

datatype gmaps_reply = ApiError | OtherException | Results "candidate list"

definition geocode_address :: "(cell \<Rightarrow> gmaps_reply) \<Rightarrow> cell \<Rightarrow> cell \<times> cell \<times> cell" where
  "geocode_address gmaps_geocode address =
     (case gmaps_geocode address of
        Results geocode_result \<Rightarrow>
          (case geocode_result of
             [] \<Rightarrow> (StrV ''no_result'', NoneV, NoneV)
           | Location lat lng # _ \<Rightarrow> (StrV ''success'', coordinate_cell lat, coordinate_cell lng)
           | Malformed # _ \<Rightarrow> (StrV ''error'', NoneV, NoneV))
      | ApiError \<Rightarrow> (StrV ''api_error'', NoneV, NoneV)
      | OtherException \<Rightarrow> (StrV ''error'', NoneV, NoneV))"

text \<open>
  The results of the lookups become a frame of three columns, and pandas infers the type
  of each: a column of coordinates that holds a float (\<open>NaN\<close> is one) is a float column,
  in which \<open>None\<close> is stored as \<open>NaN\<close>; a column of \<open>None\<close> only keeps them.
\<close>

definition is_float :: "cell \<Rightarrow> bool" where
  "is_float v = (case v of FltV r \<Rightarrow> True | NaN \<Rightarrow> True | _ \<Rightarrow> False)"

definition infer_floats :: "cell list \<Rightarrow> cell list" where
  "infer_floats vs =
     (if list_ex is_float vs then map (\<lambda>v. if v = NoneV then NaN else v) vs else vs)"

text \<open>
  What the geocoding service promises for the addresses of a run, as a condition on the
  parameter: the first candidate that it returns for an address carries two floats.
\<close>

definition is_degrees :: "coordinate \<Rightarrow> bool" where
  "is_degrees x = (case x of Degrees r \<Rightarrow> True | _ \<Rightarrow> False)"

definition coordinates_given :: "(cell \<Rightarrow> gmaps_reply) \<Rightarrow> cell list \<Rightarrow> bool" where
  "coordinates_given gmaps_geocode addresses =
     list_all (\<lambda>a. case gmaps_geocode a of
                      Results (Location lat lng # rest) \<Rightarrow> is_degrees lat \<and> is_degrees lng
                    | _ \<Rightarrow> True)
       addresses"

section \<open>PipelineOrchestrator and ReferenceJoiner (clean_and_process_dataframe)\<close>

definition unwanted_columns :: "string list" where
  "unwanted_columns =
     [''form_id'', ''user_id'', ''proof_of_income'', ''proof_of_income_type'',
      ''ic_image'', ''status'', ''is_b40'', ''race_other'']"

definition program_mapping :: "(string \<times> string) list" where
  "program_mapping =
     [(''food'', ''INSAN''), (''agriculture'', ''INTAN''), (''maintenance'', ''IKHSAN'')]"

text \<open>The stages from \<open>drop_columns\<close> to \<open>age_format\<close>, in the order of the source.\<close>

definition clean_fields :: "(cell \<Rightarrow> py_error + string) \<Rightarrow> dataframe \<Rightarrow> py_error + dataframe" where
  "clean_fields two_decimals df0 =
     (let df1 = drop_columns df0 unwanted_columns;
          df2 = rename_columns df1
      in and_then (rename_program_values df2 program_mapping)
           (\<lambda>df3. and_then (reformat_dates df3)
             (\<lambda>df4. and_then (format_uppercase df4)
               (\<lambda>df5. and_then (format_phone_numbers df5)
                 (\<lambda>df6. and_then (format_salary two_decimals df6) age_format)))))"

text \<open>
  The block under \<^verbatim>\<open>if 'address' in df.columns\<close>: the addresses are cleaned, each is looked
  up, and the three result columns are stored. The first component of the result lists
  the addresses handed to the geocoder, in the order of the calls.
\<close>

definition geocode_addresses ::
  "(cell \<Rightarrow> gmaps_reply) \<Rightarrow> dataframe \<Rightarrow> py_error + (cell list \<times> dataframe)" where
  "geocode_addresses gmaps_geocode df =
     (if ''address'' \<in> set (columns df)
      then and_then (get_col df ''address'')
             (\<lambda>address_list. and_then (clean_address address_list)
               (\<lambda>cleaned.
                  let df1 = set_col df ''address'' cleaned
                  in and_then (get_col df1 ''address'')
                       (\<lambda>addrs.
                          let geocode_results = map (geocode_address gmaps_geocode) addrs;
                              df2 = set_col df1 ''geocode_status'' (map fst geocode_results);
                              df3 = set_col df2 ''lat''
                                      (infer_floats (map (\<lambda>t. fst (snd t)) geocode_results));
                              df4 = set_col df3 ''lon''
                                      (infer_floats (map (\<lambda>t. snd (snd t)) geocode_results))
                          in Inr (addrs, df4))))
      else Inr ([], df))"

text \<open>\<open>series.astype(str).str.strip()\<close>.\<close>

definition astype_str_strip :: "cell list \<Rightarrow> cell list" where
  "astype_str_strip vs = map (\<lambda>v. StrV (py_strip (py_str v))) vs"

text \<open>
  \<^verbatim>\<open>pd.merge(df, postcode_df, on='postcode', how='left')\<close>. The columns of the left frame
  come first, then those of the right frame without the key; a name that both carry
  gets the suffix \<open>_x\<close> on the left and \<open>_y\<close> on the right, and pandas raises \<open>MergeError\<close>
  when a suffixed name meets a name already there. Each left row, in order, is paired
  with every right row of the same key, in their order, or with missing values when
  there is none.
\<close>

definition shared_columns :: "dataframe \<Rightarrow> dataframe \<Rightarrow> string list" where
  "shared_columns left right =
     filter (\<lambda>c. c \<noteq> ''postcode'' \<and> c \<in> set (columns right)) (columns left)"

definition suffixed :: "string list \<Rightarrow> string \<Rightarrow> string \<Rightarrow> string" where
  "suffixed shared sfx c = (if c \<in> set shared then c @ sfx else c)"

definition merge_rows :: "dataframe \<Rightarrow> dataframe \<Rightarrow> cell list \<Rightarrow> cell list list" where
  "merge_rows left right l =
     (let rc = columns right;
          rkeep = filter (\<lambda>c. c \<noteq> ''postcode'') rc;
          ms = filter (\<lambda>r. r ! col_pos rc ''postcode'' = l ! col_pos (columns left) ''postcode'')
                 (rows right)
      in if ms = [] then [l @ replicate (length rkeep) NaN]
         else map (\<lambda>r. l @ map (\<lambda>c. r ! col_pos rc c) rkeep) ms)"

definition merge_on_postcode :: "dataframe \<Rightarrow> dataframe \<Rightarrow> py_error + dataframe" where
  "merge_on_postcode left right =
     (let key = ''postcode''; lc = columns left; rc = columns right
      in if key \<notin> set lc \<or> key \<notin> set rc then Inl (KeyError key)
         else
           (let shared = shared_columns left right
            in if list_ex (\<lambda>c. c @ ''_x'' \<in> set lc \<or> c @ ''_y'' \<in> set rc) shared
               then Inl MergeError
               else Inr \<lparr>columns = map (suffixed shared ''_x'') lc
                                    @ map (suffixed shared ''_y'') (filter (\<lambda>c. c \<noteq> key) rc),
                         rows = concat (map (merge_rows left right) (rows left))\<rparr>))"

text \<open>The join: both keys are normalised, the frames are merged, and the columns of the
  reference side are renamed or dropped.\<close>

definition join_postcodes :: "dataframe \<Rightarrow> dataframe \<Rightarrow> py_error + dataframe" where
  "join_postcodes df postcode_df =
     and_then (get_col df ''postcode'')
       (\<lambda>lv. let df1 = set_col df ''postcode'' (astype_str_strip lv)
             in and_then (get_col postcode_df ''postcode'')
                  (\<lambda>rv. let postcode_df1 = set_col postcode_df ''postcode'' (astype_str_strip rv)
                        in and_then (merge_on_postcode df1 postcode_df1)
                             (\<lambda>combined_df.
                                let c1 = (if ''city'' \<in> set (columns combined_df)
                                          then rename_with [(''city'', ''district'')] combined_df
                                          else combined_df);
                                    c2 = (if ''state_x'' \<in> set (columns c1)
                                          then rename_with [(''state_x'', ''state'')] c1
                                          else c1);
                                    c3 = (if ''state_y'' \<in> set (columns c2)
                                          then drop_columns c2 [''state_y'']
                                          else c2)
                                in Inr c3)))"

text \<open>
  The join in the words of its description: the normalised postcode of a record is the
  text of its postcode without the whitespace at both ends, and the reference rows that
  match a record are those of the same normalised postcode, in the order of the table.
\<close>

definition normalised_postcode :: "dataframe \<Rightarrow> cell list \<Rightarrow> string" where
  "normalised_postcode df r =
     (case field df r ''postcode'' of Some v \<Rightarrow> py_strip (py_str v) | None \<Rightarrow> [])"

definition reference_matches :: "dataframe \<Rightarrow> dataframe \<Rightarrow> cell list \<Rightarrow> cell list list" where
  "reference_matches postcode_df df r =
     filter (\<lambda>m. normalised_postcode postcode_df m = normalised_postcode df r) (rows postcode_df)"

definition new_columns :: "(string \<times> cell) list" where
  "new_columns =
     [(''miskin'', StrV []), (''miskin_tegar'', StrV []), (''str_mof'', StrV []),
      (''belum_disemak'', StrV [])]"

text \<open>\<^verbatim>\<open>for col, value in new_columns.items(): combined_df[col] = value\<close>.\<close>

definition add_new_columns :: "dataframe \<Rightarrow> dataframe" where
  "add_new_columns combined_df =
     foldl (\<lambda>df (col, v). set_col_scalar df col v) combined_df new_columns"

text \<open>
  A run ends in one of three ways: the function reports with \<open>st.error\<close> and returns, an
  exception leaves it, or the combined table is stored as the output.
\<close>

datatype stop = StError string | Raised py_error

text \<open>
  \<open>clean_and_process_dataframe\<close> up to the point where the combined table is stored. The
  raw frame is \<open>None\<close> when the upload did not parse. The result is the list of addresses
  handed to the geocoder during the run, and how the run ended.
\<close>

definition clean_and_process_dataframe ::
  "(cell \<Rightarrow> gmaps_reply) \<Rightarrow> (cell \<Rightarrow> py_error + string) \<Rightarrow> dataframe option \<Rightarrow> dataframe
     \<Rightarrow> cell list \<times> (stop + dataframe)" where
  "clean_and_process_dataframe gmaps_geocode two_decimals df postcode_df =
     (case df of
        None \<Rightarrow> ([], Inl (StError ''No data available to process.''))
      | Some df0 \<Rightarrow>
          if df_empty df0 then ([], Inl (StError ''No data available to process.''))
          else
            (case clean_fields two_decimals df0 of
               Inl e \<Rightarrow> ([], Inl (Raised e))
             | Inr df1 \<Rightarrow>
                 (case geocode_addresses gmaps_geocode df1 of
                    Inl e \<Rightarrow> ([], Inl (Raised e))
                  | Inr (calls, df2) \<Rightarrow>
                      (case reorder_columns df2 of
                         Inl e \<Rightarrow> (calls, Inl (Raised e))
                       | Inr df3 \<Rightarrow>
                           if df_empty postcode_df
                           then (calls, Inl (StError ''Postcode data could not be loaded.''))
                           else
                             (case join_postcodes df3 postcode_df of
                                Inl e \<Rightarrow> (calls, Inl (Raised e))
                              | Inr combined_df \<Rightarrow> (calls, Inr (add_new_columns combined_df)))))))"

text \<open>
  The summary shown after the table is stored: \<open>value_counts\<close> of the status column lists
  each value that is not missing with the number of rows that hold it (pandas orders
  the entries by falling count; the order is not modelled).
\<close>

definition value_counts :: "cell list \<Rightarrow> (cell \<times> nat) list" where
  "value_counts vs = map (\<lambda>k. (k, length (filter (\<lambda>v. v = k) vs))) (remdups (filter notna vs))"

definition geocoding_summary :: "dataframe \<Rightarrow> py_error + (cell \<times> nat) list" where
  "geocoding_summary combined_df =
     and_then (get_col combined_df ''geocode_status'') (\<lambda>vs. Inr (value_counts vs))"

section \<open>Sample inputs\<close>

text \<open>A geocoder that knows one address, a formatter, a raw upload of two records and a
  reference table of one row, used where a statement is checked on concrete data.\<close>

definition sample_geocode :: "cell \<Rightarrow> gmaps_reply" where
  "sample_geocode a =
     (if a = StrV ''JALAN X, MALAYSIA'' then Results [Location (Degrees ''3.1'') (Degrees ''101.7'')] else Results [])"

definition sample_two_decimals :: "cell \<Rightarrow> py_error + string" where
  "sample_two_decimals x = Inr (py_str x @ ''.00'')"

definition sample_raw :: dataframe where
  "sample_raw =
     \<lparr>columns = [''form_id'', ''ic_number'', ''name'', ''address'', ''postcode'', ''state'',
                 ''miskin'', ''mobile_number''],
      rows = [[IntV 1, StrV ''990101011234'', StrV ''Ali'', StrV ''Jalan X,'', StrV '' 43000 '',
               StrV ''Selangor'', StrV ''Y'', StrV ''112345''],
              [IntV 2, StrV ''05'', StrV ''Abu'', StrV ''Jalan Z'', StrV ''99999'',
               StrV ''Johor'', StrV ''N'', NaN]]\<rparr>"

definition sample_postcodes :: dataframe where
  "sample_postcodes =
     \<lparr>columns = [''postcode'', ''city'', ''state''],
      rows = [[IntV 43000, StrV ''Kajang'', StrV ''SELANGOR'']]\<rparr>"

definition no_postcodes :: dataframe where
  "no_postcodes = \<lparr>columns = [], rows = []\<rparr>"


text \<open>A reference table whose columns are already in the canonical order.\<close>

definition sample_ordered :: dataframe where
  "sample_ordered =
     \<lparr>columns = [''state'', ''postcode'', ''city''],
      rows = [[StrV ''SELANGOR'', IntV 43000, StrV ''Kajang'']]\<rparr>"

text \<open>The sample upload after the field stages, after geocoding, after reordering and
  after the join.\<close>

definition sample_cleaned :: dataframe where
  "sample_cleaned =
     \<lparr>columns = [''ic'', ''name'', ''address'', ''postcode'', ''state'', ''miskin'', ''phone'',
                 ''age''],
      rows = [[StrV ''990101011234'', StrV ''ALI'', StrV ''JALAN X,'', StrV '' 43000 '',
               StrV ''Selangor'', StrV ''Y'', StrV ''+60112345'', IntV 25],
              [StrV ''05'', StrV ''ABU'', StrV ''JALAN Z'', StrV ''99999'', StrV ''Johor'',
               StrV ''N'', StrV ''+601nan'', StrV ''IC ERROR'']]\<rparr>"

definition sample_enriched :: dataframe where
  "sample_enriched =
     \<lparr>columns = [''ic'', ''name'', ''address'', ''postcode'', ''state'', ''miskin'', ''phone'',
                 ''age'', ''geocode_status'', ''lat'', ''lon''],
      rows = [[StrV ''990101011234'', StrV ''ALI'', StrV ''JALAN X, MALAYSIA'', StrV '' 43000 '',
               StrV ''Selangor'', StrV ''Y'', StrV ''+60112345'', IntV 25, StrV ''success'',
               FltV ''3.1'', FltV ''101.7''],
              [StrV ''05'', StrV ''ABU'', StrV ''JALAN Z, MALAYSIA'', StrV ''99999'',
               StrV ''Johor'', StrV ''N'', StrV ''+601nan'', StrV ''IC ERROR'',
               StrV ''no_result'', NaN, NaN]]\<rparr>"

definition sample_reordered :: dataframe where
  "sample_reordered =
     \<lparr>columns = [''ic'', ''name'', ''age'', ''state'', ''postcode'', ''lat'', ''lon'', ''address'',
                 ''phone'', ''miskin'', ''geocode_status''],
      rows = [[StrV ''990101011234'', StrV ''ALI'', IntV 25, StrV ''Selangor'', StrV '' 43000 '',
               FltV ''3.1'', FltV ''101.7'', StrV ''JALAN X, MALAYSIA'', StrV ''+60112345'',
               StrV ''Y'', StrV ''success''],
              [StrV ''05'', StrV ''ABU'', StrV ''IC ERROR'', StrV ''Johor'', StrV ''99999'',
               NaN, NaN, StrV ''JALAN Z, MALAYSIA'', StrV ''+601nan'', StrV ''N'',
               StrV ''no_result'']]\<rparr>"

definition sample_joined :: dataframe where
  "sample_joined =
     \<lparr>columns = [''ic'', ''name'', ''age'', ''state'', ''postcode'', ''lat'', ''lon'', ''address'',
                 ''phone'', ''miskin'', ''geocode_status'', ''district''],
      rows = [[StrV ''990101011234'', StrV ''ALI'', IntV 25, StrV ''Selangor'', StrV ''43000'',
               FltV ''3.1'', FltV ''101.7'', StrV ''JALAN X, MALAYSIA'', StrV ''+60112345'',
               StrV ''Y'', StrV ''success'', StrV ''Kajang''],
              [StrV ''05'', StrV ''ABU'', StrV ''IC ERROR'', StrV ''Johor'', StrV ''99999'',
               NaN, NaN, StrV ''JALAN Z, MALAYSIA'', StrV ''+601nan'', StrV ''N'',
               StrV ''no_result'', NaN]]\<rparr>"

text \<open>The table that the run on the sample upload and the sample reference table stores.\<close>

definition sample_final :: dataframe where
  "sample_final =
     \<lparr>columns = [''ic'', ''name'', ''age'', ''state'', ''postcode'', ''lat'', ''lon'', ''address'',
                 ''phone'', ''miskin'', ''geocode_status'', ''district'', ''miskin_tegar'',
                 ''str_mof'', ''belum_disemak''],
      rows = [[StrV ''990101011234'', StrV ''ALI'', IntV 25, StrV ''Selangor'', StrV ''43000'',
               FltV ''3.1'', FltV ''101.7'', StrV ''JALAN X, MALAYSIA'', StrV ''+60112345'',
               StrV [], StrV ''success'', StrV ''Kajang'', StrV [], StrV [], StrV []],
              [StrV ''05'', StrV ''ABU'', StrV ''IC ERROR'', StrV ''Johor'', StrV ''99999'',
               NaN, NaN, StrV ''JALAN Z, MALAYSIA'', StrV ''+601nan'',
               StrV [], StrV ''no_result'', NaN, StrV [], StrV [], StrV []]]\<rparr>"


definition sample_phones :: dataframe where
  "sample_phones =
     \<lparr>columns = [''name'', ''phone''],
      rows = [[StrV ''Ali'', StrV ''112345''], [StrV ''Abu'', NaN], [StrV ''Siti'', IntV 812345]]\<rparr>"

definition sample_phones_formatted :: dataframe where
  "sample_phones_formatted =
     \<lparr>columns = [''name'', ''phone''],
      rows = [[StrV ''Ali'', StrV ''+60112345''], [StrV ''Abu'', StrV ''+601nan''],
              [StrV ''Siti'', StrV ''+601812345'']]\<rparr>"

section \<open>Lemmas on strings\<close>

lemma py_replace_newline: "py_replace [CHR 0x0A] '' '' s = newline_to_space s"
  by (induction s) (auto simp: newline_to_space_def)

lemma py_replace_comma_space_comma: "py_replace '', ,'' '','' s = collapse_comma_space_comma s"
  by (induction s rule: collapse_comma_space_comma.induct) auto

lemma rev_dropWhile_rev:
  "rev (dropWhile P (rev s)) = take (length s - length (takeWhile P (rev s))) s"
  by (simp add: dropWhile_eq_drop drop_rev)

lemma py_rstrip_chars_comma: "py_rstrip_chars '','' s = drop_trailing_commas s"
  by (simp add: py_rstrip_chars_def drop_trailing_commas_def rev_dropWhile_rev)

lemma py_strip_trim: "py_strip s = trim s"
  by (simp add: py_strip_def py_rstrip_def py_lstrip_def trim_def rev_dropWhile_rev Let_def)

lemma py_endswith_suffix: "py_endswith s p = suffix p s"
  unfolding py_endswith_def
  by (metis append_take_drop_id same_append_eq suffix_drop suffix_length_le suffix_take)

lemma set_collapse: "set (collapse_comma_space_comma s) \<subseteq> set s"
  by (induction s rule: collapse_comma_space_comma.induct) auto

lemma set_py_strip: "set (py_strip s) \<subseteq> set s"
  unfolding py_strip_trim trim_def Let_def
  by (meson set_take_subset set_dropWhileD subsetI subset_trans)

lemma py_strip_decomp:
  "\<exists>a b. s = a @ py_strip s @ b \<and> list_all py_isspace a \<and> list_all py_isspace b"
proof -
  let ?t = "dropWhile py_isspace s"
  have 1: "s = takeWhile py_isspace s @ ?t" by simp
  have 2: "?t = rev (dropWhile py_isspace (rev ?t)) @ rev (takeWhile py_isspace (rev ?t))"
    by (metis rev_append rev_rev_ident takeWhile_dropWhile_id)
  have 3: "list_all py_isspace (takeWhile py_isspace s)"
    by (simp add: list_all_iff) (meson set_takeWhileD)
  have 4: "list_all py_isspace (rev (takeWhile py_isspace (rev ?t)))"
    by (simp add: list_all_iff) (meson set_takeWhileD)
  have "s = takeWhile py_isspace s @ py_strip s @ rev (takeWhile py_isspace (rev ?t))"
    using 1 2 by (simp add: py_strip_def py_rstrip_def py_lstrip_def)
  with 3 4 show ?thesis by blast
qed

lemma py_strip_ends:
  "py_strip s \<noteq> [] \<Longrightarrow> \<not> py_isspace (hd (py_strip s)) \<and> \<not> py_isspace (last (py_strip s))"
  unfolding py_strip_def py_rstrip_def py_lstrip_def
  by (metis Nil_is_rev_conv dropWhile.simps(1) dropWhile_eq_Nil_conv
      dropWhile_last hd_dropWhile hd_rev last_rev)

section \<open>Lemmas on results, columns and rows\<close>

lemma and_then_Inr [simp]: "and_then (Inr x) f = f x"
  by (simp add: and_then_def)

lemma and_then_Inl [simp]: "and_then (Inl e) f = Inl e"
  by (simp add: and_then_def)

lemma col_pos_Cons [simp]:
  "col_pos (x # cols) c = (if x = c then 0 else Suc (col_pos cols c))"
  by (simp add: col_pos_def)

lemma col_pos_less: "c \<in> set cols \<Longrightarrow> col_pos cols c < length cols"
  by (induction cols) auto

lemma nth_col_pos: "c \<in> set cols \<Longrightarrow> cols ! col_pos cols c = c"
  by (induction cols) auto

lemma map_of_zip_col_pos:
  "length r = length cols \<Longrightarrow> c \<in> set cols \<Longrightarrow> map_of (zip cols r) c = Some (r ! col_pos cols c)"
proof (induction cols arbitrary: r)
  case Nil
  then show ?case by simp
next
  case (Cons x cols)
  then show ?case by (cases r) auto
qed

lemma map_of_zip_absent:
  "c \<notin> set cols \<Longrightarrow> map_of (zip cols r) c = None"
  by (metis fst_conv in_set_zipE map_of_SomeD not_Some_eq)

lemma map_of_zip_update:
  "length r = length cols \<Longrightarrow> c \<in> set cols \<Longrightarrow>
   map_of (zip cols (r[col_pos cols c := v])) = (map_of (zip cols r))(c \<mapsto> v)"
proof (induction cols arbitrary: r)
  case Nil
  then show ?case by simp
next
  case (Cons x cols)
  then show ?case by (cases r) (auto simp: fun_eq_iff)
qed

lemma map_of_zip_snoc:
  "length r = length cols \<Longrightarrow> c \<notin> set cols \<Longrightarrow>
   map_of (zip (cols @ [c]) (r @ [v])) = (map_of (zip cols r))(c \<mapsto> v)"
  by (auto simp: fun_eq_iff map_add_def map_of_zip_absent split: option.splits)

lemma wf_frame_nth: "wf_frame df \<Longrightarrow> i < length (rows df) \<Longrightarrow> length (rows df ! i) = length (columns df)"
  by (simp add: wf_frame_def list_all_length)

lemma columns_set_col: "columns (set_col df c vs) = (if c \<in> set (columns df) then columns df else columns df @ [c])"
  by (simp add: set_col_def)

lemma length_rows_set_col: "length (rows (set_col df c vs)) = min (length (rows df)) (length vs)"
  by (simp add: set_col_def)

lemma wf_set_col: "wf_frame df \<Longrightarrow> wf_frame (set_col df c vs)"
  by (auto simp: wf_frame_def set_col_def list_all_iff dest!: set_zip_leftD)

lemma field_set_col:
  assumes "wf_frame df" "length vs = length (rows df)" "i < length (rows df)"
  shows "field (set_col df c vs) (rows (set_col df c vs) ! i) c' =
         (if c' = c then Some (vs ! i) else field df (rows df ! i) c')"
proof (cases "c \<in> set (columns df)")
  case True
  with assms wf_frame_nth[OF assms(1) assms(3)] show ?thesis
    by (simp add: field_def set_col_def map_of_zip_update)
next
  case False
  with assms wf_frame_nth[OF assms(1) assms(3)] show ?thesis
    by (auto simp: field_def set_col_def map_add_def map_of_zip_absent split: option.splits)
qed

lemma field_present:
  "wf_frame df \<Longrightarrow> r \<in> set (rows df) \<Longrightarrow> c \<in> set (columns df) \<Longrightarrow>
   field df r c = Some (r ! col_pos (columns df) c)"
  by (simp add: field_def wf_frame_def list_all_iff map_of_zip_col_pos)

lemma field_absent: "c \<notin> set (columns df) \<Longrightarrow> field df r c = None"
  by (simp add: field_def map_of_zip_absent)

lemma get_col_present:
  "c \<in> set (columns df) \<Longrightarrow> get_col df c = Inr (map (\<lambda>r. r ! col_pos (columns df) c) (rows df))"
  by (simp add: get_col_def)

lemma get_col_absent: "c \<notin> set (columns df) \<Longrightarrow> get_col df c = Inl (KeyError c)"
  by (simp add: get_col_def)

lemma get_col_length: "get_col df c = Inr vs \<Longrightarrow> length vs = length (rows df)"
  by (auto simp: get_col_def split: if_splits)

lemma get_col_nth:
  "get_col df c = Inr vs \<Longrightarrow> wf_frame df \<Longrightarrow> i < length (rows df) \<Longrightarrow>
   field df (rows df ! i) c = Some (vs ! i)"
  by (auto simp: get_col_def field_present split: if_splits)

lemma get_col_set_col:
  assumes "wf_frame df" "length vs = length (rows df)"
  shows "get_col (set_col df c vs) c = Inr vs"
proof -
  let ?d = "set_col df c vs"
  have c: "c \<in> set (columns ?d)" by (simp add: columns_set_col)
  have wf: "wf_frame ?d" using assms(1) by (rule wf_set_col)
  have len: "length (rows ?d) = length vs" using assms(2) by (simp add: length_rows_set_col)
  have "map (\<lambda>r. r ! col_pos (columns ?d) c) (rows ?d) = vs"
  proof (rule nth_equalityI)
    show "length (map (\<lambda>r. r ! col_pos (columns ?d) c) (rows ?d)) = length vs"
      using len by simp
  next
    fix i assume "i < length (map (\<lambda>r. r ! col_pos (columns ?d) c) (rows ?d))"
    then have i: "i < length (rows df)" using len assms(2) by simp
    then have "rows ?d ! i \<in> set (rows ?d)" using len assms(2) by simp
    from field_present[OF wf this c] field_set_col[OF assms i, of c c]
    show "map (\<lambda>r. r ! col_pos (columns ?d) c) (rows ?d) ! i = vs ! i"
      using i len assms(2) by simp
  qed
  with c show ?thesis by (simp add: get_col_def)
qed




lemma get_col_Inr_present: "get_col df c = Inr vs \<Longrightarrow> c \<in> set (columns df)"
  by (auto simp: get_col_def split: if_splits)

lemma update_column:
  assumes "wf_frame df" "get_col df c = Inr vs" "length ws = length vs"
  shows "columns (set_col df c ws) = columns df"
    and "length (rows (set_col df c ws)) = length (rows df)"
    and "wf_frame (set_col df c ws)"
    and "i < length (rows df) \<Longrightarrow>
         field (set_col df c ws) (rows (set_col df c ws) ! i) c' =
           (if c' = c then Some (ws ! i) else field df (rows df ! i) c')"
  using assms get_col_length[OF assms(2)] get_col_Inr_present[OF assms(2)]
  by (simp_all add: columns_set_col length_rows_set_col wf_set_col field_set_col)

section \<open>Lemmas on the stages\<close>

lemma format_phone_numbers_rows:
  assumes "wf_frame df" "''phone'' \<in> set (columns df)"
  shows "\<exists>df'. format_phone_numbers df = Inr df' \<and> columns df' = columns df
           \<and> length (rows df') = length (rows df)
           \<and> (\<forall>i<length (rows df). \<forall>c. field df' (rows df' ! i) c =
                 (if c = ''phone'' then map_option format_number (field df (rows df ! i) c)
                  else field df (rows df ! i) c))"
proof -
  obtain vs where vs: "get_col df ''phone'' = Inr vs"
    using assms(2) by (simp add: get_col_def)
  let ?ws = "map format_number vs"
  let ?d = "set_col df ''phone'' ?ws"
  have run: "format_phone_numbers df = Inr ?d"
    using assms(2) vs by (simp add: format_phone_numbers_def)
  have len: "length ?ws = length vs" by simp
  have "\<forall>i<length (rows df). \<forall>c. field ?d (rows ?d ! i) c =
          (if c = ''phone'' then map_option format_number (field df (rows df ! i) c)
           else field df (rows df ! i) c)"
  proof (intro allI impI)
    fix i c assume i: "i < length (rows df)"
    have "field df (rows df ! i) ''phone'' = Some (vs ! i)"
      using vs assms(1) i by (rule get_col_nth)
    moreover have "i < length vs" using i get_col_length[OF vs] by simp
    ultimately show "field ?d (rows ?d ! i) c =
          (if c = ''phone'' then map_option format_number (field df (rows df ! i) c)
           else field df (rows df ! i) c)"
      using update_column(4)[OF assms(1) vs len i, of c] by simp
  qed
  with run update_column(1,2)[OF assms(1) vs len] show ?thesis by blast
qed




text \<open>A stage whose field is absent: those that test for the column return the frame as
  it is; \<open>age_format\<close> does not test and raises.\<close>

lemma filter_zip_absent:
  "length r = length cols \<Longrightarrow> set cols \<inter> set cs = {} \<Longrightarrow>
   map snd (filter (\<lambda>(c, v). c \<notin> set cs) (zip cols r)) = r"
proof (induction cols arbitrary: r)
  case Nil
  then show ?case by simp
next
  case (Cons x cols)
  then show ?case by (cases r) auto
qed

lemma drop_columns_absent:
  assumes "wf_frame df" "set (columns df) \<inter> set cs = {}"
  shows "drop_columns df cs = df"
proof -
  have "filter (\<lambda>c. c \<notin> set cs) (columns df) = columns df"
    using assms(2) by (auto simp: filter_id_conv)
  moreover have "map (\<lambda>r. map snd (filter (\<lambda>(c, v). c \<notin> set cs) (zip (columns df) r))) (rows df) = rows df"
    using assms by (auto simp: wf_frame_def list_all_iff filter_zip_absent intro!: map_idI)
  ultimately show ?thesis by (simp add: drop_columns_def)
qed

lemma rename_with_absent:
  assumes "set (columns df) \<inter> fst ` set mapping = {}"
  shows "rename_with mapping df = df"
proof -
  have "map_of mapping c = None" if "c \<in> set (columns df)" for c
    using that assms by (auto simp: map_of_eq_None_iff)
  then have "map (\<lambda>c. case map_of mapping c of Some n \<Rightarrow> n | None \<Rightarrow> c) (columns df) = columns df"
    by (auto intro!: map_idI)
  then show ?thesis by (simp add: rename_with_def)
qed

lemma guarded_stages_absent:
  "''program'' \<notin> set (columns df) \<Longrightarrow> rename_program_values df m = Inr df"
  "''date'' \<notin> set (columns df) \<Longrightarrow> reformat_dates df = Inr df"
  "''name'' \<notin> set (columns df) \<Longrightarrow> ''address'' \<notin> set (columns df) \<Longrightarrow> format_uppercase df = Inr df"
  "''phone'' \<notin> set (columns df) \<Longrightarrow> format_phone_numbers df = Inr df"
  "''salary_monthly'' \<notin> set (columns df) \<Longrightarrow> format_salary two_decimals df = Inr df"
  "''address'' \<notin> set (columns df) \<Longrightarrow> geocode_addresses g df = Inr ([], df)"
  by (simp_all add: rename_program_values_def reformat_dates_def format_uppercase_def
      format_phone_numbers_def format_salary_def geocode_addresses_def)

lemma age_format_absent: "''ic'' \<notin> set (columns df) \<Longrightarrow> age_format df = Inl (KeyError ''ic'')"
  by (simp add: age_format_def get_col_def)

text \<open>Reordering: what \<open>reorder_columns\<close> returns, and selecting the same names again.\<close>

lemma map_of_zip_map_self:
  "c \<in> set names \<Longrightarrow> map_of (zip names (map g names)) c = Some (g c)"
  by (induction names) auto

lemma select_columns_present:
  assumes "set names \<subseteq> set (columns df)"
  shows "select_columns df names =
     Inr \<lparr>columns = names, rows = map (\<lambda>r. map (\<lambda>c. r ! col_pos (columns df) c) names) (rows df)\<rparr>"
proof -
  have "filter (\<lambda>c. c \<notin> set (columns df)) names = []"
    using assms by (auto simp: filter_empty_conv)
  then show ?thesis by (simp add: select_columns_def)
qed

lemma set_new_order: "set (new_order df) = set (columns df)"
  by (auto simp: new_order_def)

lemma reorder_columns_eq:
  "reorder_columns df =
     Inr \<lparr>columns = new_order df,
          rows = map (\<lambda>r. map (\<lambda>c. r ! col_pos (columns df) c) (new_order df)) (rows df)\<rparr>"
  using select_columns_present[of "new_order df" df]
  by (simp add: reorder_columns_def set_new_order)

lemma new_order_idem:
  "set cols' = set (columns df) \<Longrightarrow>
   filter (\<lambda>c. c \<in> set cols') original_order = filter (\<lambda>c. c \<in> set (columns df)) original_order"
  by simp

lemma new_order_again:
  "new_order \<lparr>columns = new_order df, rows = rs\<rparr> = new_order df"
proof -
  have 1: "filter (\<lambda>c. c \<in> set (new_order df)) original_order
         = filter (\<lambda>c. c \<in> set (columns df)) original_order"
    by (simp add: set_new_order)
  have 2: "filter (\<lambda>c. c \<notin> set original_order) (new_order df)
         = filter (\<lambda>c. c \<notin> set original_order) (columns df)"
    by (auto simp: new_order_def filter_empty_conv)
  show ?thesis
    using 1 2 by (simp add: new_order_def[of "\<lparr>columns = new_order df, rows = rs\<rparr>"] Let_def)
      (simp add: new_order_def)
qed

lemma reselect_row:
  "map (\<lambda>c. map g names ! col_pos names c) names = map g names"
proof (rule map_cong[OF refl])
  fix c assume c: "c \<in> set names"
  then have "col_pos names c < length names" by (rule col_pos_less)
  then show "map g names ! col_pos names c = g c"
    using nth_col_pos[OF c] by simp
qed

lemma reselect_distinct:
  "distinct cols \<Longrightarrow> length r = length cols \<Longrightarrow> map (\<lambda>c. r ! col_pos cols c) cols = r"
proof (induction cols arbitrary: r)
  case Nil
  then show ?case by simp
next
  case (Cons x cols)
  then obtain v r' where r: "r = v # r'" by (cases r) auto
  with Cons have "map (\<lambda>c. r' ! col_pos cols c) cols = r'" by simp
  moreover have "map (\<lambda>c. r ! col_pos (x # cols) c) cols = map (\<lambda>c. r' ! col_pos cols c) cols"
    using Cons.prems(1) r by (auto intro!: map_cong)
  ultimately show ?case using r by simp
qed

text \<open>The text of a number, and the prefix rule for any cell.\<close>

lemma format_number_any:
  "format_number v =
     StrV ((if py_strip (py_str v) \<noteq> [] \<and> hd (py_strip (py_str v)) = CHR ''1'' then ''+60'' else ''+601'')
           @ py_strip (py_str v))"
  by (cases "py_strip (py_str v)") (simp_all add: format_number_def py_startswith_def)

lemma int_of_digits_snoc: "int_of_digits (xs @ [c]) = 10 * int_of_digits xs + digit_val c"
  by (simp add: int_of_digits_def)

lemma digit_val_char_of:
  assumes "0 \<le> k" "k < 10"
  shows "digit_val (char_of (48 + k)) = k" "py_isdecimal_char (char_of (48 + k))"
proof -
  have a: "int (of_char (char_of (48 + k)) :: nat) = (of_char (char_of (48 + k)) :: int)"
    by (rule of_nat_of_char)
  have b: "(of_char (char_of (48 + k)) :: int) = (48 + k) mod 256"
    by (rule of_char_of)
  have c: "(48 + k) mod 256 = 48 + k" using assms by simp
  have e: "int (of_char (char_of (48 + k)) :: nat) = 48 + k"
    unfolding a b c ..
  from e show "digit_val (char_of (48 + k)) = k" by (simp add: digit_val_def)
  from e have "(of_char (char_of (48 + k)) :: nat) = nat (48 + k)" by linarith
  moreover have "48 \<le> nat (48 + k) \<and> nat (48 + k) \<le> 57" using assms by linarith
  ultimately show "py_isdecimal_char (char_of (48 + k))"
    by (simp add: py_isdecimal_char_def Let_def)
qed

lemma str_digits_decimal:
  "0 \<le> n \<Longrightarrow> list_all py_isdecimal_char (str_digits n) \<and> int_of_digits (str_digits n) = n"
proof (induction n rule: str_digits.induct)
  case (1 n)
  show ?case
  proof (cases "n < 10")
    case True
    with 1(2) digit_val_char_of[of n] show ?thesis
      by (simp add: str_digits.simps[of n] int_of_digits_def)
  next
    case False
    then have "0 \<le> n div 10" using 1(2) by simp
    with 1(1)[OF False] have ih: "list_all py_isdecimal_char (str_digits (n div 10))"
      "int_of_digits (str_digits (n div 10)) = n div 10" by simp_all
    have m: "0 \<le> n mod 10" "n mod 10 < 10" by simp_all
    from False ih digit_val_char_of[OF m] show ?thesis
      by (simp add: str_digits.simps[of n] int_of_digits_snoc)
  qed
qed

lemma py_str_int:
  "0 \<le> i \<Longrightarrow> list_all py_isdecimal_char (py_str (IntV i)) \<and> int_of_digits (py_str (IntV i)) = i"
  using str_digits_decimal[of i] by (simp add: py_str_def str_int_def)

section \<open>Lemmas on the join and the new columns\<close>

lemma wf_reorder_columns: "reorder_columns df = Inr df' \<Longrightarrow> wf_frame df'"
  by (auto simp: reorder_columns_eq wf_frame_def list_all_iff)

lemma wf_rename_with: "wf_frame df \<Longrightarrow> wf_frame (rename_with m df)"
  by (simp add: wf_frame_def rename_with_def)

lemma length_filter_zip:
  "length r = length cols \<Longrightarrow>
   length (filter (\<lambda>(c, v). P c) (zip cols r)) = length (filter P cols)"
proof (induction cols arbitrary: r)
  case Nil
  then show ?case by simp
next
  case (Cons x cols)
  then show ?case by (cases r) auto
qed

lemma wf_drop_columns: "wf_frame df \<Longrightarrow> wf_frame (drop_columns df cs)"
  by (auto simp: wf_frame_def drop_columns_def list_all_iff length_filter_zip)

lemma merge_on_postcode_Inr:
  assumes "merge_on_postcode left right = Inr m"
  shows "''postcode'' \<in> set (columns left)" and "''postcode'' \<in> set (columns right)"
    and "\<forall>c\<in>set (shared_columns left right).
           c @ ''_x'' \<notin> set (columns left) \<and> c @ ''_y'' \<notin> set (columns right)"
    and "columns m = map (suffixed (shared_columns left right) ''_x'') (columns left)
           @ map (suffixed (shared_columns left right) ''_y'')
               (filter (\<lambda>c. c \<noteq> ''postcode'') (columns right))"
    and "rows m = concat (map (merge_rows left right) (rows left))"
  using assms
  by (auto simp: merge_on_postcode_def Let_def list_ex_iff split: if_splits)

lemma merge_rows_shape:
  assumes "x \<in> set (merge_rows left right l)"
  shows "\<exists>y. x = l @ y \<and> length y = length (filter (\<lambda>c. c \<noteq> ''postcode'') (columns right))"
  using assms by (auto simp: merge_rows_def Let_def split: if_splits)

lemma wf_merge_on_postcode:
  assumes "wf_frame left" "merge_on_postcode left right = Inr m"
  shows "wf_frame m"
proof -
  have "length x = length (columns m)" if "x \<in> set (rows m)" for x
  proof -
    from that obtain l where l: "l \<in> set (rows left)" "x \<in> set (merge_rows left right l)"
      unfolding merge_on_postcode_Inr(5)[OF assms(2)] by auto
    from merge_rows_shape[OF l(2)] obtain y where
      "x = l @ y" "length y = length (filter (\<lambda>c. c \<noteq> ''postcode'') (columns right))" by blast
    moreover have "length l = length (columns left)"
      using assms(1) l(1) by (simp add: wf_frame_def list_all_iff)
    ultimately show ?thesis by (simp add: merge_on_postcode_Inr(4)[OF assms(2)])
  qed
  then show ?thesis by (simp add: wf_frame_def list_all_iff)
qed

lemma wf_join_postcodes:
  assumes "wf_frame df" "join_postcodes df pc = Inr out"
  shows "wf_frame out"
proof -
  from assms(2) obtain lv rv m where
    m: "merge_on_postcode (set_col df ''postcode'' (astype_str_strip lv))
          (set_col pc ''postcode'' (astype_str_strip rv)) = Inr m"
    and out: "out = (let c1 = (if ''city'' \<in> set (columns m)
                                          then rename_with [(''city'', ''district'')] m
                                          else m);
                                    c2 = (if ''state_x'' \<in> set (columns c1)
                                          then rename_with [(''state_x'', ''state'')] c1
                                          else c1);
                                    c3 = (if ''state_y'' \<in> set (columns c2)
                                          then drop_columns c2 [''state_y'']
                                          else c2)
                                in c3)"
    by (auto simp: join_postcodes_def and_then_def Let_def split: sum.splits)
  have "wf_frame m"
    using wf_set_col[OF assms(1)] m by (rule wf_merge_on_postcode)
  then show ?thesis
    unfolding out Let_def by (simp add: wf_rename_with wf_drop_columns)
qed

lemma field_set_col_scalar:
  assumes "wf_frame df" "i < length (rows df)"
  shows "field (set_col_scalar df c v) (rows (set_col_scalar df c v) ! i) c' =
         (if c' = c then Some v else field df (rows df ! i) c')"
  using field_set_col[OF assms(1) _ assms(2), of "replicate (length (rows df)) v" c c'] assms(2)
  by (simp add: set_col_scalar_def)

lemma set_col_scalar_shape:
  "wf_frame df \<Longrightarrow> wf_frame (set_col_scalar df c v)"
  "length (rows (set_col_scalar df c v)) = length (rows df)"
  "c \<in> set (columns (set_col_scalar df c v))"
  "set (columns df) \<subseteq> set (columns (set_col_scalar df c v))"
  by (auto simp: set_col_scalar_def wf_set_col length_rows_set_col columns_set_col)

lemma add_new_columns_unfold:
  "add_new_columns df =
     set_col_scalar (set_col_scalar (set_col_scalar (set_col_scalar df ''miskin'' (StrV []))
       ''miskin_tegar'' (StrV [])) ''str_mof'' (StrV [])) ''belum_disemak'' (StrV [])"
  by (simp add: add_new_columns_def new_columns_def)

lemma add_new_columns_fields:
  assumes "wf_frame df"
  shows "length (rows (add_new_columns df)) = length (rows df)"
    and "set (columns df) \<union> {''miskin'', ''miskin_tegar'', ''str_mof'', ''belum_disemak''}
           \<subseteq> set (columns (add_new_columns df))"
    and "i < length (rows df) \<Longrightarrow>
         field (add_new_columns df) (rows (add_new_columns df) ! i) c =
           (if c \<in> {''miskin'', ''miskin_tegar'', ''str_mof'', ''belum_disemak''} then Some (StrV [])
            else field df (rows df ! i) c)"
    and "wf_frame (add_new_columns df)"
proof -
  let ?a = "set_col_scalar df ''miskin'' (StrV [])"
  let ?b = "set_col_scalar ?a ''miskin_tegar'' (StrV [])"
  let ?c = "set_col_scalar ?b ''str_mof'' (StrV [])"
  let ?d = "set_col_scalar ?c ''belum_disemak'' (StrV [])"
  have wa: "wf_frame ?a" using assms by (rule set_col_scalar_shape)
  have wb: "wf_frame ?b" using wa by (rule set_col_scalar_shape)
  have wc: "wf_frame ?c" using wb by (rule set_col_scalar_shape)
  show "wf_frame (add_new_columns df)"
    unfolding add_new_columns_unfold using wc by (rule set_col_scalar_shape)
  show len: "length (rows (add_new_columns df)) = length (rows df)"
    by (simp add: add_new_columns_unfold set_col_scalar_shape(2))
  show "set (columns df) \<union> {''miskin'', ''miskin_tegar'', ''str_mof'', ''belum_disemak''}
           \<subseteq> set (columns (add_new_columns df))"
    unfolding add_new_columns_unfold
    using set_col_scalar_shape(3,4)[where df=df and c="''miskin''" and v="StrV []"]
      set_col_scalar_shape(3,4)[where df="?a" and c="''miskin_tegar''" and v="StrV []"]
      set_col_scalar_shape(3,4)[where df="?b" and c="''str_mof''" and v="StrV []"]
      set_col_scalar_shape(3,4)[where df="?c" and c="''belum_disemak''" and v="StrV []"]
    by blast
  show "field (add_new_columns df) (rows (add_new_columns df) ! i) c =
           (if c \<in> {''miskin'', ''miskin_tegar'', ''str_mof'', ''belum_disemak''} then Some (StrV [])
            else field df (rows df ! i) c)" if i: "i < length (rows df)"
  proof -
    have 1: "field ?a (rows ?a ! i) c = (if c = ''miskin'' then Some (StrV []) else field df (rows df ! i) c)"
      using assms i by (rule field_set_col_scalar)
    have 2: "field ?b (rows ?b ! i) c = (if c = ''miskin_tegar'' then Some (StrV []) else field ?a (rows ?a ! i) c)"
      using wa i by (intro field_set_col_scalar) (simp_all add: set_col_scalar_shape(2))
    have 3: "field ?c (rows ?c ! i) c = (if c = ''str_mof'' then Some (StrV []) else field ?b (rows ?b ! i) c)"
      using wb i by (intro field_set_col_scalar) (simp_all add: set_col_scalar_shape(2))
    have 4: "field ?d (rows ?d ! i) c = (if c = ''belum_disemak'' then Some (StrV []) else field ?c (rows ?c ! i) c)"
      using wc i by (intro field_set_col_scalar) (simp_all add: set_col_scalar_shape(2))
    show ?thesis unfolding add_new_columns_unfold 4 3 2 1 by simp
  qed
qed

lemma run_Inr_decompose:
  assumes "clean_and_process_dataframe g t df pc = (calls, Inr final)"
  shows "\<exists>d d1 d2 d3 combined. df = Some d \<and> \<not> df_empty d \<and> clean_fields t d = Inr d1
           \<and> geocode_addresses g d1 = Inr (calls, d2) \<and> reorder_columns d2 = Inr d3
           \<and> \<not> df_empty pc \<and> join_postcodes d3 pc = Inr combined
           \<and> final = add_new_columns combined"
  using assms
  by (simp add: clean_and_process_dataframe_def
      split: option.splits if_splits sum.splits prod.splits)

section \<open>Lemmas on the join with the postcode table\<close>

lemma zip_map_self: "zip rs (map g rs) = map (\<lambda>r. (r, g r)) rs"
  by (induction rs) auto

lemma set_col_map_rows:
  assumes "c \<in> set (columns df)"
  shows "set_col df c (map f (map (\<lambda>r. r ! col_pos (columns df) c) (rows df)))
       = df\<lparr>rows := map (\<lambda>r. r[col_pos (columns df) c := f (r ! col_pos (columns df) c)]) (rows df)\<rparr>"
  using assms by (simp add: set_col_def zip_map_self o_def)

lemma col_pos_absent: "c \<notin> set cols \<Longrightarrow> col_pos cols c = length cols"
  by (induction cols) (auto simp: col_pos_def)

lemma col_pos_inj:
  assumes "a \<in> set cols" "col_pos cols a = col_pos cols b"
  shows "a = b"
proof (cases "b \<in> set cols")
  case True
  have "cols ! col_pos cols a = a" using assms(1) by (rule nth_col_pos)
  moreover have "cols ! col_pos cols b = b" using True by (rule nth_col_pos)
  ultimately show ?thesis unfolding assms(2) by (rule box_equals[OF refl])
next
  case False
  have "col_pos cols a < length cols" using assms(1) by (rule col_pos_less)
  moreover have "col_pos cols b = length cols" using False by (rule col_pos_absent)
  ultimately have False unfolding assms(2) by simp
  then show ?thesis ..
qed

lemma drop_from_joined_row:
  assumes "length l = length A" "x \<notin> set A"
  shows "map snd (filter (\<lambda>(c, v). c \<notin> set [x]) (zip (A @ map h ks) (l @ map g ks)))
       = l @ map g (filter (\<lambda>k. h k \<noteq> x) ks)"
proof -
  have 1: "map snd (filter (\<lambda>(c, v). c \<notin> set [x]) (zip A l)) = l"
    by (rule filter_zip_absent) (use assms in auto)
  have 2: "map snd (filter (\<lambda>(c, v). c \<notin> set [x]) (zip (map h ks) (map g ks)))
         = map g (filter (\<lambda>k. h k \<noteq> x) ks)"
    by (induction ks) auto
  show ?thesis using assms(1) 1 2 by simp
qed

lemma map_of_zip_renamed:
  assumes "k \<in> set ks" "\<forall>k'\<in>set ks. h k' = h k \<longrightarrow> k' = k"
  shows "map_of (zip (map h ks) (map g ks)) (h k) = Some (g k)"
  using assms by (induction ks) auto

lemma map_of_zip_renamed_absent:
  assumes "\<forall>k'\<in>set ks. h k' \<noteq> n"
  shows "map_of (zip (map h ks) vs) n = None"
  using assms by (intro map_of_zip_absent) auto

lemma map_of_zip_append_left:
  fixes c :: string
  assumes "length l = length A" "c \<in> set A"
  shows "map_of (zip (A @ B) (l @ y)) c = map_of (zip A l) c"
proof -
  have "map_of (zip A l) c = Some (l ! col_pos A c)"
    using assms by (rule map_of_zip_col_pos)
  then show ?thesis using assms(1) by (simp add: map_add_def)
qed

lemma map_of_zip_append_right:
  assumes "length l = length A" "c \<notin> set A"
  shows "map_of (zip (A @ B) (l @ y)) c = map_of (zip B y) c"
  using assms by (simp add: map_add_def map_of_zip_absent)


lemma rename_lookup_other:
  "n \<noteq> a \<Longrightarrow> n \<noteq> b \<Longrightarrow>
   map_of (zip (map (\<lambda>c. if c = a then b else c) cols) r) n = map_of (zip cols r) n"
proof (induction cols arbitrary: r)
  case Nil
  then show ?case by simp
next
  case (Cons x cols)
  then show ?case by (cases r) auto
qed

lemma rename_lookup_new:
  "b \<notin> set cols \<Longrightarrow>
   map_of (zip (map (\<lambda>c. if c = a then b else c) cols) r) b = map_of (zip cols r) a"
proof (induction cols arbitrary: r)
  case Nil
  then show ?case by simp
next
  case (Cons x cols)
  then show ?case by (cases r) auto
qed

lemma drop_lookup:
  "length r = length cols \<Longrightarrow> n \<noteq> x \<Longrightarrow>
   map_of (zip (filter (\<lambda>c. c \<notin> set [x]) cols)
               (map snd (filter (\<lambda>(c, v). c \<notin> set [x]) (zip cols r)))) n
     = map_of (zip cols r) n"
proof (induction cols arbitrary: r)
  case Nil
  then show ?case by simp
next
  case (Cons y cols)
  then show ?case by (cases r) auto
qed

lemma suffix_lookup:
  "length l = length ks \<Longrightarrow> k \<in> set ks \<Longrightarrow> \<forall>k'\<in>set ks. f k' = f k \<longrightarrow> k' = k \<Longrightarrow>
   map_of (zip (map f ks) l) (f k) = map_of (zip ks l) k"
proof (induction ks arbitrary: l)
  case Nil
  then show ?case by simp
next
  case (Cons y ks)
  then show ?case by (cases l) auto
qed

lemma replicate_lookup:
  "n \<in> set names \<Longrightarrow> map_of (zip names (replicate (length names) v)) n = Some v"
  by (induction names) auto

lemma rename_with_one:
  "rename_with [(a, b)] df = df\<lparr>columns := map (\<lambda>c. if c = a then b else c) (columns df)\<rparr>"
  by (simp add: rename_with_def)

lemma map_rename_absent: "a \<notin> set cols \<Longrightarrow> map (\<lambda>c. if c = a then b else c) cols = cols"
  by (induction cols) auto

lemma normalise_postcode_column:
  assumes "get_col df ''postcode'' = Inr lv"
  shows "set_col df ''postcode'' (astype_str_strip lv)
       = df\<lparr>rows := map (\<lambda>r. r[col_pos (columns df) ''postcode''
                                    := StrV (py_strip (py_str (r ! col_pos (columns df) ''postcode'')))])
                        (rows df)\<rparr>"
proof -
  from assms have c: "''postcode'' \<in> set (columns df)"
    and lv: "lv = map (\<lambda>r. r ! col_pos (columns df) ''postcode'') (rows df)"
    by (auto simp: get_col_def split: if_splits)
  show ?thesis
    unfolding lv astype_str_strip_def by (rule set_col_map_rows[OF c])
qed

lemma join_postcodes_form:
  assumes "wf_frame df" "join_postcodes df pc = Inr out"
  shows "\<exists>m. merge_on_postcode
              (df\<lparr>rows := map (\<lambda>r. r[col_pos (columns df) ''postcode''
                                    := StrV (py_strip (py_str (r ! col_pos (columns df) ''postcode'')))])
                        (rows df)\<rparr>)
              (pc\<lparr>rows := map (\<lambda>r. r[col_pos (columns pc) ''postcode''
                                    := StrV (py_strip (py_str (r ! col_pos (columns pc) ''postcode'')))])
                        (rows pc)\<rparr>) = Inr m
          \<and> wf_frame m
          \<and> out = drop_columns (rename_with [(''state_x'', ''state'')]
                                 (rename_with [(''city'', ''district'')] m)) [''state_y'']"
proof -
  let ?L = "df\<lparr>rows := map (\<lambda>r. r[col_pos (columns df) ''postcode''
                                    := StrV (py_strip (py_str (r ! col_pos (columns df) ''postcode'')))])
                        (rows df)\<rparr>"
  let ?R = "pc\<lparr>rows := map (\<lambda>r. r[col_pos (columns pc) ''postcode''
                                    := StrV (py_strip (py_str (r ! col_pos (columns pc) ''postcode'')))])
                        (rows pc)\<rparr>"
  from assms(2) obtain lv where lv: "get_col df ''postcode'' = Inr lv"
    by (cases "get_col df ''postcode''") (simp_all add: join_postcodes_def)
  from assms(2) lv obtain rv where rv: "get_col pc ''postcode'' = Inr rv"
    by (cases "get_col pc ''postcode''") (simp_all add: join_postcodes_def Let_def)
  note nl = normalise_postcode_column[OF lv]
  note nr = normalise_postcode_column[OF rv]
  from assms(2) obtain m where m: "merge_on_postcode ?L ?R = Inr m"
    by (cases "merge_on_postcode ?L ?R") (simp_all add: join_postcodes_def Let_def lv rv nl nr)
  have wfL: "wf_frame ?L" using assms(1) by (simp add: wf_frame_def list_all_iff)
  have wm: "wf_frame m" using wfL m by (rule wf_merge_on_postcode)
  let ?c1 = "rename_with [(''city'', ''district'')] m"
  let ?c2 = "rename_with [(''state_x'', ''state'')] ?c1"
  have c1: "(if ''city'' \<in> set (columns m) then ?c1 else m) = ?c1"
    by (simp add: rename_with_absent)
  have c2: "(if ''state_x'' \<in> set (columns ?c1) then ?c2 else ?c1) = ?c2"
    by (simp add: rename_with_absent)
  have w2: "wf_frame ?c2" using wm by (intro wf_rename_with)
  have c3: "(if ''state_y'' \<in> set (columns ?c2) then drop_columns ?c2 [''state_y''] else ?c2)
            = drop_columns ?c2 [''state_y'']"
    using drop_columns_absent[OF w2, of "[''state_y'']"] by simp
  from assms(2) have "out = drop_columns ?c2 [''state_y'']"
    unfolding join_postcodes_def lv rv nl nr m and_then_Inr Let_def c1 c2 c3 by simp
  with m wm show ?thesis by blast
qed

lemma suffixed_plain: "c \<notin> set shared \<Longrightarrow> suffixed shared sfx c = c"
  by (simp add: suffixed_def)

lemma suffixed_shared: "c \<in> set shared \<Longrightarrow> suffixed shared sfx c = c @ sfx"
  by (simp add: suffixed_def)

lemma suffixed_eq_plain:
  assumes "\<forall>c\<in>set shared. c @ sfx \<notin> set cols" "k \<in> set cols" "k \<notin> set shared" "k' \<in> set cols"
    "suffixed shared sfx k' = suffixed shared sfx k"
  shows "k' = k"
proof (cases "k' \<in> set shared")
  case True
  then have "k' @ sfx = k" using assms(3,5) by (simp add: suffixed_def)
  with assms(1,2) True show ?thesis by auto
next
  case False
  then show ?thesis using assms(3,5) by (simp add: suffixed_def)
qed

lemma suffixed_eq_shared:
  assumes "\<forall>c\<in>set shared. c @ sfx \<notin> set cols" "k \<in> set shared" "k' \<in> set cols"
    "suffixed shared sfx k' = suffixed shared sfx k"
  shows "k' = k"
proof (cases "k' \<in> set shared")
  case True
  then show ?thesis using assms(2,4) by (simp add: suffixed_def)
next
  case False
  then have "k' = k @ sfx" using assms(2,4) by (simp add: suffixed_def)
  with assms(1,2,3) show ?thesis by auto
qed

lemma left_lookup:
  assumes "\<forall>c\<in>set shared. c @ sfx \<notin> set lc" "length l1 = length lc" "c \<in> set lc"
  shows "map_of (zip (map (suffixed shared sfx) lc @ B) (l1 @ y)) (suffixed shared sfx c)
         = map_of (zip lc l1) c"
proof -
  have inj: "\<forall>k'\<in>set lc. suffixed shared sfx k' = suffixed shared sfx c \<longrightarrow> k' = c"
  proof (cases "c \<in> set shared")
    case True
    show ?thesis using suffixed_eq_shared[OF assms(1) True] by blast
  next
    case False
    show ?thesis using suffixed_eq_plain[OF assms(1,3) False] by blast
  qed
  have "map_of (zip (map (suffixed shared sfx) lc @ B) (l1 @ y)) (suffixed shared sfx c)
        = map_of (zip (map (suffixed shared sfx) lc) l1) (suffixed shared sfx c)"
    using assms(2,3) by (intro map_of_zip_append_left) simp_all
  also have "\<dots> = map_of (zip lc l1) c"
    using assms(2,3) inj by (rule suffix_lookup)
  finally show ?thesis .
qed

lemma right_lookup:
  assumes "\<forall>c\<in>set shared. c @ sfx \<notin> set rc" "set rk \<subseteq> set rc" "length l1 = length A"
    "k \<in> set rk" "suffixed shared sfx k \<notin> set A"
  shows "map_of (zip (A @ map (suffixed shared sfx) rk) (l1 @ map g rk)) (suffixed shared sfx k)
         = Some (g k)"
    and "map_of (zip (A @ map (suffixed shared sfx) rk) (l1 @ replicate (length rk) v))
           (suffixed shared sfx k) = Some v"
proof -
  have inj: "\<forall>k'\<in>set rk. suffixed shared sfx k' = suffixed shared sfx k \<longrightarrow> k' = k"
  proof (cases "k \<in> set shared")
    case True
    show ?thesis using suffixed_eq_shared[OF assms(1) True] assms(2) by blast
  next
    case False
    show ?thesis using suffixed_eq_plain[OF assms(1) _ False] assms(2,4) by blast
  qed
  have "map_of (zip (A @ map (suffixed shared sfx) rk) (l1 @ map g rk)) (suffixed shared sfx k)
      = map_of (zip (map (suffixed shared sfx) rk) (map g rk)) (suffixed shared sfx k)"
    using assms(3,5) by (rule map_of_zip_append_right)
  also have "\<dots> = Some (g k)" using assms(4) inj by (rule map_of_zip_renamed)
  finally show "map_of (zip (A @ map (suffixed shared sfx) rk) (l1 @ map g rk)) (suffixed shared sfx k)
         = Some (g k)" .
  have "map_of (zip (A @ map (suffixed shared sfx) rk) (l1 @ replicate (length rk) v)) (suffixed shared sfx k)
      = map_of (zip (map (suffixed shared sfx) rk) (replicate (length rk) v)) (suffixed shared sfx k)"
    using assms(3,5) by (rule map_of_zip_append_right)
  also have "\<dots> = Some v"
    using replicate_lookup[of "suffixed shared sfx k" "map (suffixed shared sfx) rk" v] assms(4)
    by simp
  finally show "map_of (zip (A @ map (suffixed shared sfx) rk) (l1 @ replicate (length rk) v))
           (suffixed shared sfx k) = Some v" .
qed

lemma renamed_lookup_plain:
  assumes "n \<noteq> ''city''" "n \<noteq> ''district''" "n \<noteq> ''state_x''" "n \<noteq> ''state''"
  shows "map_of (zip (map (\<lambda>c. if c = ''state_x'' then ''state'' else c)
                       (map (\<lambda>c. if c = ''city'' then ''district'' else c) cols)) x) n
         = map_of (zip cols x) n"
proof -
  have "map_of (zip (map (\<lambda>c. if c = ''state_x'' then ''state'' else c)
                       (map (\<lambda>c. if c = ''city'' then ''district'' else c) cols)) x) n
        = map_of (zip (map (\<lambda>c. if c = ''city'' then ''district'' else c) cols) x) n"
    using assms(3,4) by (rule rename_lookup_other)
  also have "\<dots> = map_of (zip cols x) n"
    using assms(1,2) by (rule rename_lookup_other)
  finally show ?thesis .
qed

lemma renamed_lookup_district:
  assumes "''district'' \<notin> set cols"
  shows "map_of (zip (map (\<lambda>c. if c = ''state_x'' then ''state'' else c)
                       (map (\<lambda>c. if c = ''city'' then ''district'' else c) cols)) x) ''district''
         = map_of (zip cols x) ''city''"
proof -
  have "map_of (zip (map (\<lambda>c. if c = ''state_x'' then ''state'' else c)
                       (map (\<lambda>c. if c = ''city'' then ''district'' else c) cols)) x) ''district''
        = map_of (zip (map (\<lambda>c. if c = ''city'' then ''district'' else c) cols) x) ''district''"
    by (rule rename_lookup_other) simp_all
  also have "\<dots> = map_of (zip cols x) ''city''"
    using assms by (rule rename_lookup_new)
  finally show ?thesis .
qed

lemma renamed_lookup_state_shared:
  assumes "''state'' \<notin> set cols"
  shows "map_of (zip (map (\<lambda>c. if c = ''state_x'' then ''state'' else c)
                       (map (\<lambda>c. if c = ''city'' then ''district'' else c) cols)) x) ''state''
         = map_of (zip cols x) ''state_x''"
proof -
  have "''state'' \<notin> set (map (\<lambda>c. if c = ''city'' then ''district'' else c) cols)"
    using assms by auto
  then have "map_of (zip (map (\<lambda>c. if c = ''state_x'' then ''state'' else c)
                       (map (\<lambda>c. if c = ''city'' then ''district'' else c) cols)) x) ''state''
        = map_of (zip (map (\<lambda>c. if c = ''city'' then ''district'' else c) cols) x) ''state_x''"
    by (rule rename_lookup_new)
  also have "\<dots> = map_of (zip cols x) ''state_x''"
    by (rule rename_lookup_other) simp_all
  finally show ?thesis .
qed

lemma renamed_lookup_state_plain:
  assumes "''state_x'' \<notin> set cols"
  shows "map_of (zip (map (\<lambda>c. if c = ''state_x'' then ''state'' else c)
                       (map (\<lambda>c. if c = ''city'' then ''district'' else c) cols)) x) ''state''
         = map_of (zip cols x) ''state''"
proof -
  have "''state_x'' \<notin> set (map (\<lambda>c. if c = ''city'' then ''district'' else c) cols)"
    using assms by auto
  then have "map (\<lambda>c. if c = ''state_x'' then ''state'' else c)
                       (map (\<lambda>c. if c = ''city'' then ''district'' else c) cols)
           = map (\<lambda>c. if c = ''city'' then ''district'' else c) cols"
    by (rule map_rename_absent)
  then have "map_of (zip (map (\<lambda>c. if c = ''state_x'' then ''state'' else c)
                       (map (\<lambda>c. if c = ''city'' then ''district'' else c) cols)) x) ''state''
        = map_of (zip (map (\<lambda>c. if c = ''city'' then ''district'' else c) cols) x) ''state''"
    by (rule arg_cong[where f="\<lambda>cs. map_of (zip cs x) ''state''"])
  also have "\<dots> = map_of (zip cols x) ''state''"
    by (rule rename_lookup_other) simp_all
  finally show ?thesis .
qed

lemma name_facts:
  "k @ ''_x'' \<noteq> ''state''" "k @ ''_y'' \<noteq> ''state''"
  "k @ ''_x'' \<noteq> ''district''" "k @ ''_y'' \<noteq> ''district''"
  "k @ ''_x'' \<noteq> ''city''" "k @ ''_y'' \<noteq> ''city''"
  "k @ ''_y'' \<noteq> ''state_x''"
  by (auto dest!: arg_cong[where f="\<lambda>s. drop (length s - 2) s"])

lemma name_state_x: "k @ ''_x'' = ''state_x'' \<Longrightarrow> k = ''state''"
proof -
  assume a: "k @ ''_x'' = ''state_x''"
  then have "length (k @ ''_x'') = length ''state_x''" by (rule arg_cong)
  then have n: "length k = 5" by simp
  then have "k = take 5 (k @ ''_x'')" by simp
  also have "\<dots> = take 5 ''state_x''" by (simp only: a)
  also have "\<dots> = ''state''" by simp
  finally show ?thesis .
qed

lemma shared_columns_cong:
  "columns L = columns df \<Longrightarrow> columns R = columns pc \<Longrightarrow> shared_columns L R = shared_columns df pc"
  by (simp add: shared_columns_def)

lemma shared_columns_iff:
  "c \<in> set (shared_columns df pc) \<longleftrightarrow> c \<noteq> ''postcode'' \<and> c \<in> set (columns df) \<and> c \<in> set (columns pc)"
  by (auto simp: shared_columns_def)

lemma normalised_postcode_present:
  assumes "wf_frame df" "r \<in> set (rows df)" "''postcode'' \<in> set (columns df)"
  shows "normalised_postcode df r = py_strip (py_str (r ! col_pos (columns df) ''postcode''))"
  using field_present[OF assms] by (simp add: normalised_postcode_def)

lemma merge_rows_normalised:
  fixes df pc :: dataframe
  defines "pl \<equiv> col_pos (columns df) ''postcode''" and "pr \<equiv> col_pos (columns pc) ''postcode''"
  defines "L \<equiv> df\<lparr>rows := map (\<lambda>r. r[pl := StrV (py_strip (py_str (r ! pl)))]) (rows df)\<rparr>"
    and "R \<equiv> pc\<lparr>rows := map (\<lambda>r. r[pr := StrV (py_strip (py_str (r ! pr)))]) (rows pc)\<rparr>"
  assumes wf: "wf_frame df" and wfp: "wf_frame pc"
    and kl: "''postcode'' \<in> set (columns df)" and kr: "''postcode'' \<in> set (columns pc)"
    and l: "l \<in> set (rows df)"
  shows "merge_rows L R (l[pl := StrV (py_strip (py_str (l ! pl)))])
       = (if reference_matches pc df l = []
          then [l[pl := StrV (py_strip (py_str (l ! pl)))]
                @ replicate (length (filter (\<lambda>c. c \<noteq> ''postcode'') (columns pc))) NaN]
          else map (\<lambda>m. l[pl := StrV (py_strip (py_str (l ! pl)))]
                        @ map (\<lambda>c. m ! col_pos (columns pc) c)
                            (filter (\<lambda>c. c \<noteq> ''postcode'') (columns pc)))
                 (reference_matches pc df l))"
proof -
  let ?N = "\<lambda>r. r[pr := StrV (py_strip (py_str (r ! pr)))]"
  let ?l1 = "l[pl := StrV (py_strip (py_str (l ! pl)))]"
  let ?rk = "filter (\<lambda>c. c \<noteq> ''postcode'') (columns pc)"
  have ll: "length l = length (columns df)" using wf l by (simp add: wf_frame_def list_all_iff)
  have pl_lt: "pl < length l" unfolding pl_def ll using kl by (rule col_pos_less)
  have l1k: "?l1 ! pl = StrV (py_strip (py_str (l ! pl)))" using pl_lt by simp
  have lm: "length m = length (columns pc)" if "m \<in> set (rows pc)" for m
    using wfp that by (simp add: wf_frame_def list_all_iff)
  have pr_lt: "pr < length m" if "m \<in> set (rows pc)" for m
    unfolding pr_def lm[OF that] using kr by (rule col_pos_less)
  have key_eq: "(?N m ! pr = ?l1 ! pl) = (normalised_postcode pc m = normalised_postcode df l)"
    if "m \<in> set (rows pc)" for m
    using pr_lt[OF that] l1k normalised_postcode_present[OF wfp that kr]
      normalised_postcode_present[OF wf l kl]
    by (simp add: pl_def pr_def)
  have ms: "filter (\<lambda>r. r ! pr = ?l1 ! pl) (map ?N (rows pc)) = map ?N (reference_matches pc df l)"
    unfolding reference_matches_def filter_map o_def
    by (rule arg_cong[where f="map ?N"], rule filter_cong[OF refl]) (rule key_eq)
  have other: "?N m ! col_pos (columns pc) c = m ! col_pos (columns pc) c"
    if "c \<in> set ?rk" for m c
  proof -
    from that have c: "c \<in> set (columns pc)" "c \<noteq> ''postcode''" by auto
    have "col_pos (columns pc) c \<noteq> pr"
      unfolding pr_def using col_pos_inj[OF c(1)] c(2) by blast
    then show ?thesis by simp
  qed
  have part: "map (\<lambda>c. ?N m ! col_pos (columns pc) c) ?rk = map (\<lambda>c. m ! col_pos (columns pc) c) ?rk" for m
    by (rule map_cong[OF refl]) (rule other)
  have "merge_rows L R ?l1
      = (let ms = map ?N (reference_matches pc df l)
         in if ms = [] then [?l1 @ replicate (length ?rk) NaN]
            else map (\<lambda>r. ?l1 @ map (\<lambda>c. r ! col_pos (columns pc) c) ?rk) ms)"
    unfolding merge_rows_def by (simp add: L_def R_def ms pl_def[symmetric] pr_def[symmetric] Let_def)
  also have "\<dots> = (if reference_matches pc df l = [] then [?l1 @ replicate (length ?rk) NaN]
          else map (\<lambda>m. ?l1 @ map (\<lambda>c. m ! col_pos (columns pc) c) ?rk) (reference_matches pc df l))"
    by (simp add: Let_def o_def part)
  finally show ?thesis .
qed

lemma in_suffixed:
  assumes "n \<in> set (map (suffixed sh sfx) ks)"
  shows "(n \<in> set ks \<and> n \<notin> set sh) \<or> (\<exists>k\<in>set sh. k \<in> set ks \<and> n = k @ sfx)"
proof -
  from assms obtain k where k: "k \<in> set ks" "n = suffixed sh sfx k" by auto
  show ?thesis
  proof (cases "k \<in> set sh")
    case True
    with k show ?thesis by (auto simp: suffixed_def)
  next
    case False
    with k show ?thesis by (auto simp: suffixed_def)
  qed
qed

lemma joined_row_lookup:
  fixes lc rc sh :: "string list" and l1 :: "cell list"
  defines "rk \<equiv> filter (\<lambda>c. c \<noteq> ''postcode'') rc"
  defines "A \<equiv> map (suffixed sh ''_x'') lc" and "B \<equiv> map (suffixed sh ''_y'') rk"
  defines "Lk \<equiv> \<lambda>y n. map_of (zip (map (\<lambda>c. if c = ''state_x'' then ''state'' else c)
                                   (map (\<lambda>c. if c = ''city'' then ''district'' else c) (A @ B)))
                              (l1 @ y)) n"
  assumes sh: "\<forall>c. c \<in> set sh \<longleftrightarrow> c \<noteq> ''postcode'' \<and> c \<in> set lc \<and> c \<in> set rc"
    and nx: "\<forall>c\<in>set sh. c @ ''_x'' \<notin> set lc" and ny: "\<forall>c\<in>set sh. c @ ''_y'' \<notin> set rc"
    and kl: "''postcode'' \<in> set lc"
    and len: "length l1 = length lc"
  shows "Lk y ''postcode'' = map_of (zip lc l1) ''postcode''"
    and "c \<in> set lc \<Longrightarrow> c \<notin> set rc \<Longrightarrow> c \<noteq> ''city'' \<Longrightarrow> c \<noteq> ''district'' \<Longrightarrow> c \<noteq> ''state_x''
           \<Longrightarrow> c \<noteq> ''state'' \<Longrightarrow> Lk y c = map_of (zip lc l1) c"
    and "''state'' \<in> set lc \<Longrightarrow>
           ''state'' \<in> set rc \<or> (''state_x'' \<notin> set lc \<and> ''state_x'' \<notin> set rc) \<Longrightarrow>
           Lk y ''state'' = map_of (zip lc l1) ''state''"
    and "''city'' \<in> set rc \<Longrightarrow> ''city'' \<notin> set lc \<Longrightarrow> ''district'' \<notin> set lc \<Longrightarrow> ''district'' \<notin> set rc
           \<Longrightarrow> Lk (map g rk) ''district'' = Some (g ''city'')
               \<and> Lk (replicate (length rk) v) ''district'' = Some v"
    and "''state'' \<notin> set lc \<Longrightarrow> ''state'' \<in> set rc \<Longrightarrow> ''state_x'' \<notin> set lc \<Longrightarrow> ''state_x'' \<notin> set rc
           \<Longrightarrow> Lk (map g rk) ''state'' = Some (g ''state'')
               \<and> Lk (replicate (length rk) v) ''state'' = Some v"
proof -
  have rk_sub: "set rk \<subseteq> set rc" by (auto simp: rk_def)
  have lenA: "length l1 = length A" by (simp add: A_def len)
  have inA: "(n \<in> set lc \<and> n \<notin> set sh) \<or> (\<exists>k\<in>set sh. k \<in> set lc \<and> n = k @ ''_x'')"
    if "n \<in> set A" for n using that unfolding A_def by (rule in_suffixed)
  have inB: "(n \<in> set rk \<and> n \<notin> set sh) \<or> (\<exists>k\<in>set sh. k \<in> set rk \<and> n = k @ ''_y'')"
    if "n \<in> set B" for n using that unfolding B_def by (rule in_suffixed)
  have left: "map_of (zip (A @ B) (l1 @ y)) (suffixed sh ''_x'' c) = map_of (zip lc l1) c"
    if "c \<in> set lc" for c y
    unfolding A_def using nx len that by (rule left_lookup)
  have k_sh: "''postcode'' \<notin> set sh" using sh by blast
  show "Lk y ''postcode'' = map_of (zip lc l1) ''postcode''"
  proof -
    have "Lk y ''postcode'' = map_of (zip (A @ B) (l1 @ y)) ''postcode''"
      unfolding Lk_def by (rule renamed_lookup_plain) simp_all
    also have "\<dots> = map_of (zip lc l1) ''postcode''"
      using left[OF kl, of y] suffixed_plain[OF k_sh, of "''_x''"] by simp
    finally show ?thesis .
  qed
  show "Lk y c = map_of (zip lc l1) c"
    if c: "c \<in> set lc" "c \<notin> set rc" "c \<noteq> ''city''" "c \<noteq> ''district''" "c \<noteq> ''state_x''" "c \<noteq> ''state''"
  proof -
    have c_sh: "c \<notin> set sh" using sh c(2) by blast
    have "Lk y c = map_of (zip (A @ B) (l1 @ y)) c"
      unfolding Lk_def using c(3,4,5,6) by (rule renamed_lookup_plain)
    also have "\<dots> = map_of (zip lc l1) c"
      using left[OF c(1), of y] suffixed_plain[OF c_sh, of "''_x''"] by simp
    finally show ?thesis .
  qed
  show "Lk y ''state'' = map_of (zip lc l1) ''state''"
    if st: "''state'' \<in> set lc"
      and alt: "''state'' \<in> set rc \<or> (''state_x'' \<notin> set lc \<and> ''state_x'' \<notin> set rc)"
  proof (cases "''state'' \<in> set rc")
    case True
    then have s_sh: "''state'' \<in> set sh" using sh st by simp
    have "''state'' \<notin> set (A @ B)"
    proof
      assume "''state'' \<in> set (A @ B)"
      then consider "''state'' \<in> set A" | "''state'' \<in> set B" by auto
      then show False
      proof cases
        case 1
        from inA[OF 1] s_sh show False using name_facts(1) by metis
      next
        case 2
        from inB[OF 2] s_sh show False using name_facts(2) by metis
      qed
    qed
    then have "Lk y ''state'' = map_of (zip (A @ B) (l1 @ y)) ''state_x''"
      unfolding Lk_def by (rule renamed_lookup_state_shared)
    also have "\<dots> = map_of (zip lc l1) ''state''"
      using left[OF st, of y] suffixed_shared[OF s_sh, of "''_x''"] by simp
    finally show ?thesis .
  next
    case False
    with alt have sx: "''state_x'' \<notin> set lc" "''state_x'' \<notin> set rc" by auto
    have s_sh: "''state'' \<notin> set sh" using sh False by blast
    have "''state_x'' \<notin> set (A @ B)"
    proof
      assume "''state_x'' \<in> set (A @ B)"
      then consider "''state_x'' \<in> set A" | "''state_x'' \<in> set B" by auto
      then show False
      proof cases
        case 1
        from inA[OF 1] sx(1) obtain k where "k \<in> set sh" "''state_x'' = k @ ''_x''" by blast
        with name_state_x[of k] s_sh show False by simp
      next
        case 2
        from inB[OF 2] sx(2) rk_sub obtain k where "''state_x'' = k @ ''_y''" by blast
        with name_facts(7)[of k] show False by simp
      qed
    qed
    then have "Lk y ''state'' = map_of (zip (A @ B) (l1 @ y)) ''state''"
      unfolding Lk_def by (rule renamed_lookup_state_plain)
    also have "\<dots> = map_of (zip lc l1) ''state''"
      using left[OF st, of y] suffixed_plain[OF s_sh, of "''_x''"] by simp
    finally show ?thesis .
  qed
  show "Lk (map g rk) ''district'' = Some (g ''city'') \<and> Lk (replicate (length rk) v) ''district'' = Some v"
    if h: "''city'' \<in> set rc" "''city'' \<notin> set lc" "''district'' \<notin> set lc" "''district'' \<notin> set rc"
  proof -
    have c_sh: "''city'' \<notin> set sh" using sh h(2) by blast
    have c_rk: "''city'' \<in> set rk" using h(1) by (simp add: rk_def)
    have dA: "''district'' \<notin> set (A @ B)"
    proof
      assume "''district'' \<in> set (A @ B)"
      then consider "''district'' \<in> set A" | "''district'' \<in> set B" by auto
      then show False
      proof cases
        case 1
        from inA[OF 1] h(3) obtain k where "''district'' = k @ ''_x''" by blast
        with name_facts(3)[of k] show False by simp
      next
        case 2
        from inB[OF 2] h(4) rk_sub obtain k where "''district'' = k @ ''_y''" by blast
        with name_facts(4)[of k] show False by simp
      qed
    qed
    have cA: "suffixed sh ''_y'' ''city'' \<notin> set A"
    proof
      assume "suffixed sh ''_y'' ''city'' \<in> set A"
      then have 1: "''city'' \<in> set A" using suffixed_plain[OF c_sh, of "''_y''"] by simp
      from inA[OF 1] h(2) obtain k where "''city'' = k @ ''_x''" by blast
      with name_facts(5)[of k] show False by simp
    qed
    have e: "Lk y ''district'' = map_of (zip (A @ B) (l1 @ y)) (suffixed sh ''_y'' ''city'')" for y
      unfolding Lk_def suffixed_plain[OF c_sh] using dA by (rule renamed_lookup_district)
    show ?thesis
      unfolding e B_def using right_lookup[OF ny rk_sub lenA c_rk cA] by simp
  qed
  show "Lk (map g rk) ''state'' = Some (g ''state'') \<and> Lk (replicate (length rk) v) ''state'' = Some v"
    if h: "''state'' \<notin> set lc" "''state'' \<in> set rc" "''state_x'' \<notin> set lc" "''state_x'' \<notin> set rc"
  proof -
    have s_sh: "''state'' \<notin> set sh" using sh h(1) by blast
    have s_rk: "''state'' \<in> set rk" using h(2) by (simp add: rk_def)
    have xA: "''state_x'' \<notin> set (A @ B)"
    proof
      assume "''state_x'' \<in> set (A @ B)"
      then consider "''state_x'' \<in> set A" | "''state_x'' \<in> set B" by auto
      then show False
      proof cases
        case 1
        from inA[OF 1] h(3) obtain k where "k \<in> set sh" "''state_x'' = k @ ''_x''" by blast
        with name_state_x[of k] s_sh show False by simp
      next
        case 2
        from inB[OF 2] h(4) rk_sub obtain k where "''state_x'' = k @ ''_y''" by blast
        with name_facts(7)[of k] show False by simp
      qed
    qed
    have sA: "suffixed sh ''_y'' ''state'' \<notin> set A"
    proof
      assume "suffixed sh ''_y'' ''state'' \<in> set A"
      then have 1: "''state'' \<in> set A" using suffixed_plain[OF s_sh, of "''_y''"] by simp
      from inA[OF 1] h(1) obtain k where "''state'' = k @ ''_x''" by blast
      with name_facts(1)[of k] show False by simp
    qed
    have e: "Lk y ''state'' = map_of (zip (A @ B) (l1 @ y)) (suffixed sh ''_y'' ''state'')" for y
      unfolding Lk_def suffixed_plain[OF s_sh] using xA by (rule renamed_lookup_state_plain)
    show ?thesis
      unfolding e B_def using right_lookup[OF ny rk_sub lenA s_rk sA] by simp
  qed
qed

lemma join_postcodes_rows:
  assumes wf: "wf_frame df" and wfp: "wf_frame pc" and j: "join_postcodes df pc = Inr out"
  shows "\<exists>J. rows out = concat (map J (rows df))
     \<and> (\<forall>l\<in>set (rows df).
          length (J l) = max 1 (length (reference_matches pc df l))
        \<and> (\<forall>i<length (J l).
              field out (J l ! i) ''postcode'' = Some (StrV (normalised_postcode df l))
            \<and> (\<forall>c\<in>set (columns df). c \<notin> set (columns pc) \<longrightarrow> c \<noteq> ''city'' \<longrightarrow> c \<noteq> ''district''
                  \<longrightarrow> c \<noteq> ''state_x'' \<longrightarrow> c \<noteq> ''state'' \<longrightarrow> c \<noteq> ''state_y''
                  \<longrightarrow> field out (J l ! i) c = field df l c)
            \<and> (''state'' \<in> set (columns df) \<longrightarrow>
                  ''state'' \<in> set (columns pc)
                    \<or> (''state_x'' \<notin> set (columns df) \<and> ''state_x'' \<notin> set (columns pc)) \<longrightarrow>
                  field out (J l ! i) ''state'' = field df l ''state'')
            \<and> (''city'' \<in> set (columns pc) \<longrightarrow> ''city'' \<notin> set (columns df) \<longrightarrow>
                  ''district'' \<notin> set (columns df) \<longrightarrow> ''district'' \<notin> set (columns pc) \<longrightarrow>
                  field out (J l ! i) ''district''
                    = (if reference_matches pc df l = [] then Some NaN
                       else field pc (reference_matches pc df l ! i) ''city''))
            \<and> (''state'' \<notin> set (columns df) \<longrightarrow> ''state'' \<in> set (columns pc) \<longrightarrow>
                  ''state_x'' \<notin> set (columns df) \<longrightarrow> ''state_x'' \<notin> set (columns pc) \<longrightarrow>
                  field out (J l ! i) ''state''
                    = (if reference_matches pc df l = [] then Some NaN
                       else field pc (reference_matches pc df l ! i) ''state''))))"
proof -
  define pl where "pl = col_pos (columns df) ''postcode''"
  define pr where "pr = col_pos (columns pc) ''postcode''"
  define nl :: "cell list \<Rightarrow> cell list" where "nl = (\<lambda>r. r[pl := StrV (py_strip (py_str (r ! pl)))])"
  define nr :: "cell list \<Rightarrow> cell list" where "nr = (\<lambda>r. r[pr := StrV (py_strip (py_str (r ! pr)))])"
  define L where "L = df\<lparr>rows := map nl (rows df)\<rparr>"
  define R where "R = pc\<lparr>rows := map nr (rows pc)\<rparr>"
  define lc where "lc = columns df"
  define rc where "rc = columns pc"
  define rk where "rk = filter (\<lambda>c. c \<noteq> ''postcode'') rc"
  define sh where "sh = shared_columns L R"
  define cols where "cols = map (suffixed sh ''_x'') lc @ map (suffixed sh ''_y'') rk"
  define cols2 where "cols2 = map (\<lambda>c. if c = ''state_x'' then ''state'' else c)
                                (map (\<lambda>c. if c = ''city'' then ''district'' else c) cols)"
  define Dr :: "cell list \<Rightarrow> cell list" where
    "Dr = (\<lambda>x. map snd (filter (\<lambda>(c, v). c \<notin> set [''state_y'']) (zip cols2 x)))"
  define J where "J = (\<lambda>l. map Dr (merge_rows L R (nl l)))"
  have cL: "columns L = lc" and cR: "columns R = rc" by (simp_all add: L_def R_def lc_def rc_def)
  have rL: "rows L = map nl (rows df)" by (simp add: L_def)
  have "\<exists>m. merge_on_postcode L R = Inr m \<and> wf_frame m
           \<and> out = drop_columns (rename_with [(''state_x'', ''state'')]
                                 (rename_with [(''city'', ''district'')] m)) [''state_y'']"
    unfolding L_def R_def nl_def nr_def pl_def pr_def by (rule join_postcodes_form[OF wf j])
  then obtain m where m: "merge_on_postcode L R = Inr m"
    and out: "out = drop_columns (rename_with [(''state_x'', ''state'')]
                                 (rename_with [(''city'', ''district'')] m)) [''state_y'']"
    by (elim exE conjE)
  note M = merge_on_postcode_Inr[OF m]
  have kl: "''postcode'' \<in> set lc" using M(1) cL by simp
  have kr: "''postcode'' \<in> set rc" using M(2) cR by simp
  have sh_iff: "\<forall>c. c \<in> set sh \<longleftrightarrow> c \<noteq> ''postcode'' \<and> c \<in> set lc \<and> c \<in> set rc"
    unfolding sh_def by (simp add: shared_columns_iff cL cR)
  have nx: "\<forall>c\<in>set sh. c @ ''_x'' \<notin> set lc" using M(3) unfolding sh_def cL cR by blast
  have ny: "\<forall>c\<in>set sh. c @ ''_y'' \<notin> set rc" using M(3) unfolding sh_def cL cR by blast
  have cm: "columns m = cols" using M(4) unfolding cols_def sh_def rk_def cL cR .
  have rm: "rows m = concat (map (merge_rows L R) (rows L))" by (rule M(5))
  have cols_out: "columns out = filter (\<lambda>c. c \<notin> set [''state_y'']) cols2"
    unfolding out cols2_def by (simp add: drop_columns_def rename_with_one cm)
  have rows_out: "rows out = map Dr (rows m)"
    unfolding out Dr_def cols2_def by (simp add: drop_columns_def rename_with_one cm)
  have len_cols2: "length cols2 = length lc + length rk" by (simp add: cols2_def cols_def)
  have concat_J: "rows out = concat (map J (rows df))"
    unfolding rows_out rm rL J_def by (simp add: map_concat o_def)
  have MR: "merge_rows L R (nl l)
       = (if reference_matches pc df l = [] then [nl l @ replicate (length rk) NaN]
          else map (\<lambda>m. nl l @ map (\<lambda>c. m ! col_pos rc c) rk) (reference_matches pc df l))"
    if "l \<in> set (rows df)" for l
    unfolding L_def R_def nl_def nr_def pl_def pr_def rk_def rc_def
    using wf wfp kl[unfolded lc_def] kr[unfolded rc_def] that by (rule merge_rows_normalised)
  have lookup: "field out (Dr x) n = map_of (zip cols2 x) n"
    if "length x = length cols2" "n \<noteq> ''state_y''" for x n
    unfolding field_def cols_out Dr_def using that by (rule drop_lookup)
  note JL = joined_row_lookup[OF sh_iff nx ny kl, folded rk_def, folded cols_def, folded cols2_def]
  have row_props:
    "length (J l) = max 1 (length (reference_matches pc df l))
        \<and> (\<forall>i<length (J l).
              field out (J l ! i) ''postcode'' = Some (StrV (normalised_postcode df l))
            \<and> (\<forall>c\<in>set (columns df). c \<notin> set (columns pc) \<longrightarrow> c \<noteq> ''city'' \<longrightarrow> c \<noteq> ''district''
                  \<longrightarrow> c \<noteq> ''state_x'' \<longrightarrow> c \<noteq> ''state'' \<longrightarrow> c \<noteq> ''state_y''
                  \<longrightarrow> field out (J l ! i) c = field df l c)
            \<and> (''state'' \<in> set (columns df) \<longrightarrow>
                  ''state'' \<in> set (columns pc)
                    \<or> (''state_x'' \<notin> set (columns df) \<and> ''state_x'' \<notin> set (columns pc)) \<longrightarrow>
                  field out (J l ! i) ''state'' = field df l ''state'')
            \<and> (''city'' \<in> set (columns pc) \<longrightarrow> ''city'' \<notin> set (columns df) \<longrightarrow>
                  ''district'' \<notin> set (columns df) \<longrightarrow> ''district'' \<notin> set (columns pc) \<longrightarrow>
                  field out (J l ! i) ''district''
                    = (if reference_matches pc df l = [] then Some NaN
                       else field pc (reference_matches pc df l ! i) ''city''))
            \<and> (''state'' \<notin> set (columns df) \<longrightarrow> ''state'' \<in> set (columns pc) \<longrightarrow>
                  ''state_x'' \<notin> set (columns df) \<longrightarrow> ''state_x'' \<notin> set (columns pc) \<longrightarrow>
                  field out (J l ! i) ''state''
                    = (if reference_matches pc df l = [] then Some NaN
                       else field pc (reference_matches pc df l ! i) ''state'')))"
    if l: "l \<in> set (rows df)" for l
  proof -
    define ms where "ms = reference_matches pc df l"
    define g where "g = (\<lambda>i c. (ms ! i) ! col_pos rc c)"
    define y where "y = (\<lambda>i. if ms = [] then replicate (length rk) NaN else map (g i) rk)"
    have len_l: "length l = length lc"
      using wf l unfolding lc_def by (simp add: wf_frame_def list_all_iff)
    have len_nl: "length (nl l) = length lc" using len_l by (simp add: nl_def)
    have lenJ: "length (J l) = max 1 (length ms)"
      unfolding J_def MR[OF l] ms_def by (simp add: Suc_leI max_def)
    have Ji: "J l ! i = Dr (nl l @ y i)" if "i < length (J l)" for i
    proof (cases "ms = []")
      case True
      with that lenJ have "i = 0" by simp
      then show ?thesis unfolding J_def MR[OF l] y_def using True by (simp add: ms_def)
    next
      case False
      with that lenJ have i: "i < length ms" by (simp add: max_def split: if_splits)
      show ?thesis unfolding J_def MR[OF l] y_def g_def using False i by (simp add: ms_def)
    qed
    have len_y: "length (nl l @ y i) = length cols2" for i
      by (simp add: len_cols2 len_nl y_def)
    have fld: "field out (J l ! i) n = map_of (zip cols2 (nl l @ y i)) n"
      if "i < length (J l)" "n \<noteq> ''state_y''" for i n
      unfolding Ji[OF that(1)] using len_y that(2) by (rule lookup)
    have upd: "map_of (zip lc (nl l)) = (map_of (zip lc l))(''postcode'' \<mapsto> StrV (py_strip (py_str (l ! pl))))"
      unfolding nl_def pl_def lc_def[symmetric] using len_l kl by (rule map_of_zip_update)
    have np: "normalised_postcode df l = py_strip (py_str (l ! pl))"
      unfolding pl_def using wf l kl[unfolded lc_def] by (rule normalised_postcode_present)
    have ms_rows: "ms ! i \<in> set (rows pc)" if "i < length ms" for i
    proof -
      have "ms ! i \<in> set ms" using that by simp
      then show ?thesis unfolding ms_def reference_matches_def by simp
    qed
    have pA: "field out (J l ! i) ''postcode'' = Some (StrV (normalised_postcode df l))"
      if i: "i < length (J l)" for i
    proof -
      have "field out (J l ! i) ''postcode'' = map_of (zip lc (nl l)) ''postcode''"
        unfolding fld[OF i, of "''postcode''", simplified] by (rule JL(1)[OF len_nl])
      also have "\<dots> = Some (StrV (normalised_postcode df l))" by (simp add: upd np)
      finally show ?thesis .
    qed
    have pB: "field out (J l ! i) c = field df l c"
      if i: "i < length (J l)" and c: "c \<in> set (columns df)" "c \<notin> set (columns pc)" "c \<noteq> ''city''"
        "c \<noteq> ''district''" "c \<noteq> ''state_x''" "c \<noteq> ''state''" "c \<noteq> ''state_y''" for i c
    proof -
      have cp: "c \<noteq> ''postcode''" using c(2) kr rc_def by auto
      have "field out (J l ! i) c = map_of (zip lc (nl l)) c"
        unfolding fld[OF i c(7)]
        by (rule JL(2)[OF len_nl c(1)[folded lc_def] c(2)[folded rc_def] c(3,4,5,6)])
      also have "\<dots> = map_of (zip lc l) c" using cp by (simp add: upd)
      also have "\<dots> = field df l c" by (simp add: field_def lc_def)
      finally show ?thesis .
    qed
    have pC: "field out (J l ! i) ''state'' = field df l ''state''"
      if i: "i < length (J l)" and c: "''state'' \<in> set (columns df)"
        "''state'' \<in> set (columns pc) \<or> (''state_x'' \<notin> set (columns df) \<and> ''state_x'' \<notin> set (columns pc))"
      for i
    proof -
      have "field out (J l ! i) ''state'' = map_of (zip lc (nl l)) ''state''"
        unfolding fld[OF i, of "''state''", simplified]
        by (rule JL(3)[OF len_nl c(1)[folded lc_def] c(2)[folded lc_def rc_def]])
      also have "\<dots> = map_of (zip lc l) ''state''" by (simp add: upd)
      also have "\<dots> = field df l ''state''" by (simp add: field_def lc_def)
      finally show ?thesis .
    qed
    have pD: "field out (J l ! i) ''district''
                = (if ms = [] then Some NaN else field pc (ms ! i) ''city'')"
      if i: "i < length (J l)" and c: "''city'' \<in> set (columns pc)" "''city'' \<notin> set (columns df)"
        "''district'' \<notin> set (columns df)" "''district'' \<notin> set (columns pc)" for i
    proof -
      note D = JL(4)[OF len_nl c(1)[folded rc_def] c(2)[folded lc_def] c(3)[folded lc_def]
                c(4)[folded rc_def], of "g i" NaN]
      show ?thesis
      proof (cases "ms = []")
        case True
        then show ?thesis
          unfolding fld[OF i, of "''district''", simplified] y_def using D[THEN conjunct2] by simp
      next
        case False
        with i lenJ have im: "i < length ms" by (simp add: max_def split: if_splits)
        have "field pc (ms ! i) ''city'' = Some (g i ''city'')"
          unfolding g_def rc_def using wfp ms_rows[OF im] c(1) by (rule field_present)
        then show ?thesis
          unfolding fld[OF i, of "''district''", simplified] y_def using D[THEN conjunct1] False
          by simp
      qed
    qed
    have pE: "field out (J l ! i) ''state''
                = (if ms = [] then Some NaN else field pc (ms ! i) ''state'')"
      if i: "i < length (J l)" and c: "''state'' \<notin> set (columns df)" "''state'' \<in> set (columns pc)"
        "''state_x'' \<notin> set (columns df)" "''state_x'' \<notin> set (columns pc)" for i
    proof -
      note D = JL(5)[OF len_nl c(1)[folded lc_def] c(2)[folded rc_def] c(3)[folded lc_def]
                c(4)[folded rc_def], of "g i" NaN]
      show ?thesis
      proof (cases "ms = []")
        case True
        then show ?thesis
          unfolding fld[OF i, of "''state''", simplified] y_def using D[THEN conjunct2] by simp
      next
        case False
        with i lenJ have im: "i < length ms" by (simp add: max_def split: if_splits)
        have "field pc (ms ! i) ''state'' = Some (g i ''state'')"
          unfolding g_def rc_def using wfp ms_rows[OF im] c(2) by (rule field_present)
        then show ?thesis
          unfolding fld[OF i, of "''state''", simplified] y_def using D[THEN conjunct1] False
          by simp
      qed
    qed
    show ?thesis
      unfolding ms_def[symmetric]
      by (intro conjI allI impI ballI lenJ pA pB pC pD pE)
  qed
  show ?thesis
    by (rule exI[of _ J], rule conjI[OF concat_J], rule ballI, rule row_props)
qed

section \<open>C1: cleaning an address\<close>

text \<open>
  C1, as the code has it. For every input string, \<open>process_address\<close> replaces each newline
  by a space; then, reading from the left, replaces each comma, space, comma by one comma
  (two commas side by side are kept); then removes the commas at the end; then removes
  the whitespace at both ends; and appends \<open>, MALAYSIA\<close> unless the text already ends
  with it. The result always ends with \<open>, MALAYSIA\<close> and holds no newline. The address
  \<open>Jalan X,, \nTaman Y,\<close> becomes \<open>Jalan X,,  Taman Y, MALAYSIA\<close>, and the empty string
  becomes \<open>, MALAYSIA\<close>.
\<close>

theorem process_address_steps:
  "process_address a = cleanAddress a
   \<and> suffix '', MALAYSIA'' (process_address a)
   \<and> CHR 0x0A \<notin> set (process_address a)
   \<and> process_address (''Jalan X,, '' @ [CHR 0x0A] @ ''Taman Y,'') = ''Jalan X,,  Taman Y, MALAYSIA''
   \<and> process_address [] = '', MALAYSIA''"
proof -
  have eq: "process_address a = cleanAddress a"
    by (simp add: process_address_def cleanAddress_def py_replace_newline
        py_replace_comma_space_comma py_rstrip_chars_comma py_strip_trim py_endswith_suffix Let_def)
  have suf: "suffix '', MALAYSIA'' (process_address a)"
    by (simp add: process_address_def py_endswith_suffix Let_def suffix_def)
  let ?b = "py_rstrip_chars '','' (py_replace '', ,'' '','' (py_replace [CHR 0x0A] '' '' a))"
  have "set (py_strip ?b) \<subseteq> set (newline_to_space a)"
    using set_py_strip[of ?b] set_collapse[of "newline_to_space a"]
    by (auto simp: py_replace_newline py_replace_comma_space_comma py_rstrip_chars_comma
        drop_trailing_commas_def dest: in_set_takeD)
  moreover have "CHR 0x0A \<notin> set (newline_to_space a)"
    by (auto simp: newline_to_space_def)
  ultimately have nl: "CHR 0x0A \<notin> set (process_address a)"
    by (auto simp: process_address_def Let_def)
  have ex: "process_address (''Jalan X,, '' @ [CHR 0x0A] @ ''Taman Y,'') = ''Jalan X,,  Taman Y, MALAYSIA''"
    by code_simp
  have em: "process_address [] = '', MALAYSIA''"
    by code_simp
  from eq suf nl ex em show ?thesis by blast
qed

text \<open>
  C1 as stated fails on its own example: the two commas of \<open>Jalan X,, \nTaman Y,\<close> are
  not separated by a space, so they are kept, and the result is not
  \<open>Jalan X, Taman Y, MALAYSIA\<close>.
\<close>

theorem process_address_example_counterexample:
  "process_address (''Jalan X,, '' @ [CHR 0x0A] @ ''Taman Y,'') \<noteq> ''Jalan X, Taman Y, MALAYSIA''"
  by code_simp

section \<open>C2: a stage whose field is absent\<close>

text \<open>
  C2 at the stage \<open>age_format\<close>. The claim asks that a stage returns the record set
  unchanged when its field is absent. On an upload whose records have a name and no
  identity number, \<open>age_format\<close> raises \<open>KeyError\<close> for \<open>ic\<close>, and so does the whole run,
  before any address is looked up.
\<close>

theorem age_format_absent_ic:
  "age_format \<lparr>columns = [''name''], rows = [[StrV ''Ali'']]\<rparr> = Inl (KeyError ''ic'')
   \<and> clean_and_process_dataframe sample_geocode sample_two_decimals
        (Some \<lparr>columns = [''name''], rows = [[StrV ''Ali'']]\<rparr>) sample_postcodes
      = ([], Inl (Raised (KeyError ''ic'')))"
  by code_simp

section \<open>C3: the fatal preconditions\<close>

text \<open>
  C3, as the code has it. When the raw frame is \<open>None\<close> or empty, the run stops at once:
  no address is looked up and no table is stored. When the reference table is empty, no
  table is stored either, but the run stops only after the stages up to the reordering
  have run: when the field stages and the geocoding succeed, the addresses have been
  handed to the geocoder before the run reports that the postcode data could not be
  loaded.
\<close>

theorem abort_conditions:
  "((df = None \<or> (\<exists>d. df = Some d \<and> df_empty d)) \<longrightarrow>
      clean_and_process_dataframe g t df pc = ([], Inl (StError ''No data available to process.'')))
   \<and> (df_empty pc \<longrightarrow> (\<forall>out. snd (clean_and_process_dataframe g t df pc) \<noteq> Inr out))
   \<and> (df = Some d \<and> \<not> df_empty d \<and> df_empty pc \<and> clean_fields t d = Inr d1
        \<and> geocode_addresses g d1 = Inr (calls, d2) \<longrightarrow>
      clean_and_process_dataframe g t df pc
        = (calls, Inl (StError ''Postcode data could not be loaded.'')))"
proof -
  have a: "clean_and_process_dataframe g t df pc = ([], Inl (StError ''No data available to process.''))"
    if "df = None \<or> (\<exists>d. df = Some d \<and> df_empty d)"
    using that by (auto simp: clean_and_process_dataframe_def)
  have b: "snd (clean_and_process_dataframe g t df pc) \<noteq> Inr out" if "df_empty pc" for out
    using that
    by (simp add: clean_and_process_dataframe_def
        split: option.splits if_splits sum.splits prod.splits)
  have c: "clean_and_process_dataframe g t df pc
        = (calls, Inl (StError ''Postcode data could not be loaded.''))"
    if "df = Some d" "\<not> df_empty d" "df_empty pc" "clean_fields t d = Inr d1"
      "geocode_addresses g d1 = Inr (calls, d2)"
    using that by (simp add: clean_and_process_dataframe_def reorder_columns_eq)
  from a b c show ?thesis by blast
qed

text \<open>The statement at an upload that did not parse, at an empty upload, and at the
  sample upload with an empty reference table.\<close>

theorem abort_conditions_witness:
  "clean_and_process_dataframe sample_geocode sample_two_decimals None sample_postcodes
     = ([], Inl (StError ''No data available to process.''))
   \<and> df_empty no_postcodes
   \<and> clean_and_process_dataframe sample_geocode sample_two_decimals (Some no_postcodes) sample_postcodes
     = ([], Inl (StError ''No data available to process.''))
   \<and> \<not> df_empty sample_raw
   \<and> clean_fields sample_two_decimals sample_raw = Inr sample_cleaned
   \<and> geocode_addresses sample_geocode sample_cleaned
        = Inr ([StrV ''JALAN X, MALAYSIA'', StrV ''JALAN Z, MALAYSIA''], sample_enriched)
   \<and> clean_and_process_dataframe sample_geocode sample_two_decimals (Some sample_raw) no_postcodes
     = ([StrV ''JALAN X, MALAYSIA'', StrV ''JALAN Z, MALAYSIA''],
        Inl (StError ''Postcode data could not be loaded.''))
   \<and> snd (clean_and_process_dataframe sample_geocode sample_two_decimals (Some sample_raw) no_postcodes)
       \<noteq> Inr sample_final"
proof -
  have e: "df_empty no_postcodes" by code_simp
  have ne: "\<not> df_empty sample_raw" by code_simp
  have s1: "clean_fields sample_two_decimals sample_raw = Inr sample_cleaned" by code_simp
  have s2: "geocode_addresses sample_geocode sample_cleaned
        = Inr ([StrV ''JALAN X, MALAYSIA'', StrV ''JALAN Z, MALAYSIA''], sample_enriched)"
    by code_simp
  note t1 = abort_conditions[where df=None and g=sample_geocode and t=sample_two_decimals
      and pc=sample_postcodes]
  note t2 = abort_conditions[where df="Some no_postcodes" and g=sample_geocode
      and t=sample_two_decimals and pc=sample_postcodes]
  note t3 = abort_conditions[where df="Some sample_raw" and d=sample_raw and g=sample_geocode
      and t=sample_two_decimals and pc=no_postcodes and ?d1.0=sample_cleaned
      and calls="[StrV ''JALAN X, MALAYSIA'', StrV ''JALAN Z, MALAYSIA'']" and ?d2.0=sample_enriched]
  from t1 have 1: "clean_and_process_dataframe sample_geocode sample_two_decimals None sample_postcodes
     = ([], Inl (StError ''No data available to process.''))" by blast
  from t2 e have 2: "clean_and_process_dataframe sample_geocode sample_two_decimals (Some no_postcodes) sample_postcodes
     = ([], Inl (StError ''No data available to process.''))" by blast
  from t3 e ne s1 s2 have 3: "clean_and_process_dataframe sample_geocode sample_two_decimals (Some sample_raw) no_postcodes
     = ([StrV ''JALAN X, MALAYSIA'', StrV ''JALAN Z, MALAYSIA''],
        Inl (StError ''Postcode data could not be loaded.''))" by blast
  from t3 e have 4: "snd (clean_and_process_dataframe sample_geocode sample_two_decimals (Some sample_raw) no_postcodes)
       \<noteq> Inr sample_final" by blast
  from 1 2 3 4 e ne s1 s2 show ?thesis by blast
qed

text \<open>C3 as stated lets no stage run when the reference table is unavailable. On the
  sample upload with an empty reference table, both addresses are cleaned and looked up
  before the run stops.\<close>

theorem abort_after_stages_counterexample:
  "df_empty no_postcodes
   \<and> fst (clean_and_process_dataframe sample_geocode sample_two_decimals (Some sample_raw) no_postcodes)
       = [StrV ''JALAN X, MALAYSIA'', StrV ''JALAN Z, MALAYSIA'']"
  by code_simp

section \<open>C4: the derived age\<close>




section \<open>C5: the four flag columns\<close>

text \<open>
  C5, as the code has it. In every table that a run stores, the four columns \<open>miskin\<close>,
  \<open>miskin_tegar\<close>, \<open>str_mof\<close> and \<open>belum_disemak\<close> are present and every record holds the
  empty string in each of them, whether or not the upload supplied a value.
\<close>

theorem flag_columns_final:
  assumes "clean_and_process_dataframe g t df pc = (calls, Inr final)"
  shows "\<forall>c\<in>{''miskin'', ''miskin_tegar'', ''str_mof'', ''belum_disemak''}.
           c \<in> set (columns final) \<and> (\<forall>r\<in>set (rows final). field final r c = Some (StrV []))"
proof -
  from run_Inr_decompose[OF assms] obtain d3 d2 combined where
    r: "reorder_columns d2 = Inr d3" and
    j: "join_postcodes d3 pc = Inr combined" and
    f: "final = add_new_columns combined"
    by blast
  have wf: "wf_frame combined"
    using wf_reorder_columns[OF r] j by (rule wf_join_postcodes)
  note A = add_new_columns_fields[OF wf]
  show ?thesis
  proof (intro ballI conjI)
    fix c assume c: "c \<in> {''miskin'', ''miskin_tegar'', ''str_mof'', ''belum_disemak''}"
    then show "c \<in> set (columns final)" using A(2) unfolding f by blast
    fix r assume "r \<in> set (rows final)"
    then obtain i where i: "i < length (rows final)" "r = rows final ! i"
      by (auto simp: in_set_conv_nth)
    then have "i < length (rows combined)" using A(1) by (simp add: f)
    from A(3)[OF this, of c] c i show "field final r c = Some (StrV [])"
      by (simp add: f)
  qed
qed

text \<open>The statement at the run on the sample upload.\<close>

theorem flag_columns_final_witness:
  "clean_and_process_dataframe sample_geocode sample_two_decimals (Some sample_raw) sample_postcodes
     = ([StrV ''JALAN X, MALAYSIA'', StrV ''JALAN Z, MALAYSIA''], Inr sample_final)
   \<and> ''miskin'' \<in> set (columns sample_final)
   \<and> ''belum_disemak'' \<in> set (columns sample_final)
   \<and> field sample_final (rows sample_final ! 0) ''miskin'' = Some (StrV [])
   \<and> field sample_final (rows sample_final ! 1) ''str_mof'' = Some (StrV [])"
proof -
  have run: "clean_and_process_dataframe sample_geocode sample_two_decimals (Some sample_raw) sample_postcodes
     = ([StrV ''JALAN X, MALAYSIA'', StrV ''JALAN Z, MALAYSIA''], Inr sample_final)"
    by code_simp
  have r0: "rows sample_final ! 0 \<in> set (rows sample_final)" by code_simp
  have r1: "rows sample_final ! 1 \<in> set (rows sample_final)" by code_simp
  from flag_columns_final[OF run] r0 r1 run show ?thesis by blast
qed

text \<open>C5 as stated keeps a value supplied upstream. The first record of the sample upload
  comes with \<open>miskin = Y\<close>; in the table that the run stores, its \<open>miskin\<close> is empty.\<close>

theorem flag_columns_overwritten_counterexample:
  "field sample_raw (rows sample_raw ! 0) ''miskin'' = Some (StrV ''Y'')
   \<and> snd (clean_and_process_dataframe sample_geocode sample_two_decimals (Some sample_raw)
          sample_postcodes) = Inr sample_final
   \<and> field sample_final (rows sample_final ! 0) ''miskin'' = Some (StrV [])"
  by code_simp

section \<open>C8: phone numbers\<close>

text \<open>
  C8, as the code has it. When the frame has no \<open>phone\<close> column, \<open>format_phone_numbers\<close>
  returns it unchanged. When it has one, every row keeps its other fields and its phone
  value \<open>v\<close>, of whatever type, becomes \<open>format_number v\<close>: the text of \<open>v\<close> (a string
  itself, the decimal digits of a number, the \<open>repr\<close> of a float) without the whitespace at
  both ends, with \<open>+60\<close> before it when it starts with the digit 1, and with \<open>+601\<close>
  otherwise, also when nothing is left. So \<open>112345\<close> becomes \<open>+60112345\<close> and \<open>812345\<close>
  becomes \<open>+601812345\<close>, as strings and as numbers, and the empty string becomes \<open>+601\<close>.
  A record without a phone value in a frame that has the column is not left alone: its
  \<open>NaN\<close> becomes \<open>+601nan\<close>.
\<close>

theorem format_phone_numbers_prefix:
  "(''phone'' \<notin> set (columns df) \<longrightarrow> format_phone_numbers df = Inr df)
   \<and> (wf_frame df \<and> ''phone'' \<in> set (columns df) \<longrightarrow>
        (\<exists>df'. format_phone_numbers df = Inr df' \<and> columns df' = columns df
           \<and> length (rows df') = length (rows df)
           \<and> (\<forall>i<length (rows df). \<forall>c. field df' (rows df' ! i) c =
                 (if c = ''phone'' then map_option format_number (field df (rows df ! i) c)
                  else field df (rows df ! i) c))))
   \<and> format_number v =
        StrV ((if py_strip (py_str v) \<noteq> [] \<and> hd (py_strip (py_str v)) = CHR ''1''
               then ''+60'' else ''+601'') @ py_strip (py_str v))
   \<and> py_str (StrV s) = s \<and> py_str (FltV s) = s
   \<and> (0 \<le> i \<longrightarrow> list_all py_isdecimal_char (py_str (IntV i)) \<and> int_of_digits (py_str (IntV i)) = i)
   \<and> (\<exists>a b. s = a @ py_strip s @ b \<and> list_all py_isspace a \<and> list_all py_isspace b)
   \<and> (py_strip s \<noteq> [] \<longrightarrow> \<not> py_isspace (hd (py_strip s)) \<and> \<not> py_isspace (last (py_strip s)))
   \<and> format_number (StrV ''112345'') = StrV ''+60112345''
   \<and> format_number (StrV ''812345'') = StrV ''+601812345''
   \<and> format_number (StrV []) = StrV ''+601''
   \<and> format_number (IntV 112345) = StrV ''+60112345''
   \<and> format_number (IntV 812345) = StrV ''+601812345''
   \<and> format_number (FltV ''112345.0'') = StrV ''+60112345.0''
   \<and> format_number (BoolV True) = StrV ''+601True''
   \<and> format_number NaN = StrV ''+601nan''"
proof -
  have a: "''phone'' \<notin> set (columns df) \<longrightarrow> format_phone_numbers df = Inr df"
    by (simp add: format_phone_numbers_def)
  have b: "wf_frame df \<and> ''phone'' \<in> set (columns df) \<longrightarrow>
        (\<exists>df'. format_phone_numbers df = Inr df' \<and> columns df' = columns df
           \<and> length (rows df') = length (rows df)
           \<and> (\<forall>i<length (rows df). \<forall>c. field df' (rows df' ! i) c =
                 (if c = ''phone'' then map_option format_number (field df (rows df ! i) c)
                  else field df (rows df ! i) c)))"
    using format_phone_numbers_rows[of df] by (intro impI) (elim conjE)
  have c: "py_str (StrV s) = s" "py_str (FltV s) = s" by (simp_all add: py_str_def)
  have d: "0 \<le> i \<longrightarrow> list_all py_isdecimal_char (py_str (IntV i)) \<and> int_of_digits (py_str (IntV i)) = i"
    using py_str_int[of i] by (intro impI)
  have e: "py_strip s \<noteq> [] \<longrightarrow> \<not> py_isspace (hd (py_strip s)) \<and> \<not> py_isspace (last (py_strip s))"
    using py_strip_ends[of s] by (intro impI)
  have e1: "format_number (StrV ''112345'') = StrV ''+60112345''" by code_simp
  have e2: "format_number (StrV ''812345'') = StrV ''+601812345''" by code_simp
  have e3: "format_number (StrV []) = StrV ''+601''" by code_simp
  have e4: "format_number (IntV 112345) = StrV ''+60112345''" by code_simp
  have e5: "format_number (IntV 812345) = StrV ''+601812345''" by code_simp
  have e6: "format_number (FltV ''112345.0'') = StrV ''+60112345.0''" by code_simp
  have e7: "format_number (BoolV True) = StrV ''+601True''" by code_simp
  have e8: "format_number NaN = StrV ''+601nan''" by code_simp
  note f = format_number_any[of v]
  note g = py_strip_decomp[of s]
  show ?thesis
    by (intro conjI) (rule a b f c d g e e1 e2 e3 e4 e5 e6 e7 e8)+
qed

text \<open>The statement at three records, whose phone values are a string, missing and a
  number, at the reference table, which has no phone column, and at a number with
  blanks around it.\<close>

theorem format_phone_numbers_prefix_witness:
  "wf_frame sample_phones \<and> ''phone'' \<in> set (columns sample_phones)
   \<and> ''phone'' \<notin> set (columns sample_postcodes)
   \<and> format_phone_numbers sample_postcodes = Inr sample_postcodes
   \<and> (\<exists>df'. format_phone_numbers sample_phones = Inr df'
         \<and> field df' (rows df' ! 0) ''phone'' = Some (StrV ''+60112345'')
         \<and> field df' (rows df' ! 2) ''phone'' = Some (StrV ''+601812345'')
         \<and> field df' (rows df' ! 2) ''name'' = Some (StrV ''Siti''))
   \<and> py_strip '' 812 345  '' \<noteq> []
   \<and> format_number (StrV '' 812 345  '') = StrV ''+601812 345''
   \<and> int_of_digits (py_str (IntV 812345)) = 812345"
proof -
  have wf: "wf_frame sample_phones" by code_simp
  have ph: "''phone'' \<in> set (columns sample_phones)" by code_simp
  have np: "''phone'' \<notin> set (columns sample_postcodes)" by code_simp
  have n: "length (rows sample_phones) = 3" by code_simp
  have f0: "field sample_phones (rows sample_phones ! 0) ''phone'' = Some (StrV ''112345'')" by code_simp
  have f2: "field sample_phones (rows sample_phones ! 2) ''phone'' = Some (IntV 812345)" by code_simp
  have f2n: "field sample_phones (rows sample_phones ! 2) ''name'' = Some (StrV ''Siti'')" by code_simp
  have s1: "py_strip '' 812 345  '' = ''812 345''" by code_simp
  have s2: "py_strip '' 812 345  '' \<noteq> []" by code_simp
  note t1 = format_phone_numbers_prefix[where df=sample_phones and s="'' 812 345  ''"
      and v="StrV '' 812 345  ''" and i=812345]
  note t2 = format_phone_numbers_prefix[where df=sample_postcodes and s="[]" and v=NaN and i=0]
  have e1: "format_number (StrV ''112345'') = StrV ''+60112345''"
    using t1 by (elim conjE)
  have e5: "format_number (IntV 812345) = StrV ''+601812345''"
    using t1 by (elim conjE)
  note ex0 = mp[OF t1[THEN conjunct2, THEN conjunct1] conjI[OF wf ph]]
  from ex0 obtain df' where d0: "format_phone_numbers sample_phones = Inr df'
           \<and> columns df' = columns sample_phones
           \<and> length (rows df') = length (rows sample_phones)
           \<and> (\<forall>i<length (rows sample_phones). \<forall>c. field df' (rows df' ! i) c =
                 (if c = ''phone'' then map_option format_number (field sample_phones (rows sample_phones ! i) c)
                  else field sample_phones (rows sample_phones ! i) c))" ..
  note d = d0[THEN conjunct1]
  note each = d0[THEN conjunct2, THEN conjunct2, THEN conjunct2]
  have r0: "field df' (rows df' ! 0) ''phone'' = Some (StrV ''+60112345'')"
    using each[rule_format, of 0 "''phone''"] n f0 e1 by simp
  have r2: "field df' (rows df' ! 2) ''phone'' = Some (StrV ''+601812345'')"
    using each[rule_format, of 2 "''phone''"] n f2 e5 by simp
  have r2n: "field df' (rows df' ! 2) ''name'' = Some (StrV ''Siti'')"
    using each[rule_format, of 2 "''name''"] n f2n by simp
  have ex: "\<exists>df'. format_phone_numbers sample_phones = Inr df'
         \<and> field df' (rows df' ! 0) ''phone'' = Some (StrV ''+60112345'')
         \<and> field df' (rows df' ! 2) ''phone'' = Some (StrV ''+601812345'')
         \<and> field df' (rows df' ! 2) ''name'' = Some (StrV ''Siti'')"
    by (rule exI[of _ df']) (rule conjI[OF d conjI[OF r0 conjI[OF r2 r2n]]])
  have noop: "format_phone_numbers sample_postcodes = Inr sample_postcodes"
    using t2[THEN conjunct1] np by (rule mp)
  have fn: "format_number (StrV '' 812 345  '') = StrV ''+601812 345''"
    using t1[THEN conjunct2, THEN conjunct2, THEN conjunct1] by (simp add: py_str_def s1)
  have rt: "int_of_digits (py_str (IntV 812345)) = 812345"
    using t1[THEN conjunct2, THEN conjunct2, THEN conjunct2, THEN conjunct2, THEN conjunct2, THEN conjunct1]
    by simp
  show ?thesis
    by (rule conjI[OF wf conjI[OF ph conjI[OF np conjI[OF noop conjI[OF ex conjI[OF s2 conjI[OF fn rt]]]]]]])
qed

text \<open>C8 as stated makes an absent phone field a no-op. The second of the three records
  has no phone value; after the stage its phone is the text \<open>+601nan\<close>.\<close>

theorem format_phone_missing_record_counterexample:
  "field sample_phones (rows sample_phones ! 1) ''phone'' = Some NaN
   \<and> format_phone_numbers sample_phones = Inr sample_phones_formatted
   \<and> field sample_phones_formatted (rows sample_phones_formatted ! 1) ''phone'' = Some (StrV ''+601nan'')"
  by code_simp

section \<open>C9: reordering the columns\<close>

text \<open>
  C9. For every frame, \<open>reorder_columns\<close> returns a frame whose columns are the names of
  the canonical order that the frame has, in canonical order, followed by the other
  columns in the order they had; the rows are as many as before and every field of a
  row keeps its value. Reordering the result again returns it unchanged, and a frame
  whose distinct columns are already in that order is returned as it is.
\<close>

theorem reorder_columns_idempotent:
  "\<exists>df'. reorder_columns df = Inr df'
     \<and> columns df' = filter (\<lambda>c. c \<in> set (columns df)) original_order
                      @ filter (\<lambda>c. c \<notin> set original_order) (columns df)
     \<and> length (rows df') = length (rows df)
     \<and> (wf_frame df \<longrightarrow>
          (\<forall>i<length (rows df). \<forall>c. field df' (rows df' ! i) c = field df (rows df ! i) c))
     \<and> reorder_columns df' = Inr df'
     \<and> (wf_frame df \<and> distinct (columns df)
          \<and> columns df = filter (\<lambda>c. c \<in> set (columns df)) original_order
                          @ filter (\<lambda>c. c \<notin> set original_order) (columns df)
          \<longrightarrow> df' = df)"
proof -
  let ?d = "\<lparr>columns = new_order df,
          rows = map (\<lambda>r. map (\<lambda>c. r ! col_pos (columns df) c) (new_order df)) (rows df)\<rparr>"
  have run: "reorder_columns df = Inr ?d" by (rule reorder_columns_eq)
  have cols: "columns ?d = filter (\<lambda>c. c \<in> set (columns df)) original_order
                      @ filter (\<lambda>c. c \<notin> set original_order) (columns df)"
    by (simp add: new_order_def)
  have len: "length (rows ?d) = length (rows df)" by simp
  have flds: "field ?d (rows ?d ! i) c = field df (rows df ! i) c"
    if wf: "wf_frame df" and i: "i < length (rows df)" for i c
  proof (cases "c \<in> set (columns df)")
    case True
    then have "c \<in> set (new_order df)" by (simp add: set_new_order)
    then have "field ?d (rows ?d ! i) c = Some ((rows df ! i) ! col_pos (columns df) c)"
      using i by (simp add: field_def map_of_zip_map_self)
    moreover have "field df (rows df ! i) c = Some ((rows df ! i) ! col_pos (columns df) c)"
      using wf i True by (simp add: field_present)
    ultimately show ?thesis by simp
  next
    case False
    then have "c \<notin> set (columns ?d)" by (simp add: set_new_order)
    with False show ?thesis by (simp add: field_absent del: dataframe.select_convs)
  qed
  have again: "reorder_columns ?d = Inr ?d"
    by (simp add: reorder_columns_eq new_order_again reselect_row o_def)
  have fixed: "?d = df"
    if wf: "wf_frame df" and dist: "distinct (columns df)"
      and ord: "columns df = filter (\<lambda>c. c \<in> set (columns df)) original_order
                          @ filter (\<lambda>c. c \<notin> set original_order) (columns df)"
  proof -
    from ord have no: "new_order df = columns df" by (simp add: new_order_def)
    have "map (\<lambda>r. map (\<lambda>c. r ! col_pos (columns df) c) (columns df)) (rows df) = rows df"
      using wf dist by (auto simp: wf_frame_def list_all_iff reselect_distinct intro!: map_idI)
    with no show ?thesis by simp
  qed
  from run cols len flds again fixed show ?thesis by blast
qed

text \<open>The statement at the sample upload, and at a reference table already in canonical
  order.\<close>

theorem reorder_columns_idempotent_witness:
  "wf_frame sample_raw \<and> 1 < length (rows sample_raw)
   \<and> (\<exists>df'. reorder_columns sample_raw = Inr df'
        \<and> columns df' = [''name'', ''state'', ''postcode'', ''address'', ''miskin'',
                          ''form_id'', ''ic_number'', ''mobile_number'']
        \<and> field df' (rows df' ! 1) ''postcode'' = Some (StrV ''99999'')
        \<and> reorder_columns df' = Inr df')
   \<and> wf_frame sample_ordered \<and> distinct (columns sample_ordered)
   \<and> reorder_columns sample_ordered = Inr sample_ordered"
proof -
  have wf: "wf_frame sample_raw" by code_simp
  have n: "1 < length (rows sample_raw)" by code_simp
  have c: "filter (\<lambda>c. c \<in> set (columns sample_raw)) original_order
             @ filter (\<lambda>c. c \<notin> set original_order) (columns sample_raw)
           = [''name'', ''state'', ''postcode'', ''address'', ''miskin'',
              ''form_id'', ''ic_number'', ''mobile_number'']" by code_simp
  have f: "field sample_raw (rows sample_raw ! 1) ''postcode'' = Some (StrV ''99999'')" by code_simp
  from reorder_columns_idempotent[of sample_raw] wf n c f
  have a: "\<exists>df'. reorder_columns sample_raw = Inr df'
        \<and> columns df' = [''name'', ''state'', ''postcode'', ''address'', ''miskin'',
                          ''form_id'', ''ic_number'', ''mobile_number'']
        \<and> field df' (rows df' ! 1) ''postcode'' = Some (StrV ''99999'')
        \<and> reorder_columns df' = Inr df'"
    by force
  have wp: "wf_frame sample_ordered" by code_simp
  have dp: "distinct (columns sample_ordered)" by code_simp
  have cp: "columns sample_ordered = filter (\<lambda>c. c \<in> set (columns sample_ordered)) original_order
             @ filter (\<lambda>c. c \<notin> set original_order) (columns sample_ordered)" by code_simp
  from reorder_columns_idempotent[of sample_ordered] wp dp cp
  have b: "reorder_columns sample_ordered = Inr sample_ordered" by force
  from wf n a wp dp b show ?thesis by blast
qed

section \<open>C10: a missing phone value\<close>

text \<open>
  C10, as the code has it. A missing phone value is not skipped: \<open>format_number\<close> turns
  \<open>NaN\<close> into \<open>+601nan\<close> and \<open>None\<close> into \<open>+601None\<close>. In a frame with a \<open>phone\<close> column, a
  row whose phone value is missing ends with the prefix \<open>+601\<close> followed by the text of
  that missing value, \<open>nan\<close> or \<open>None\<close>.
\<close>

theorem format_number_missing:
  "format_number NaN = StrV ''+601nan'' \<and> format_number NoneV = StrV ''+601None''
   \<and> (wf_frame df \<and> ''phone'' \<in> set (columns df) \<and> i < length (rows df) \<and> \<not> notna v
        \<and> field df (rows df ! i) ''phone'' = Some v \<longrightarrow>
       (\<exists>df'. format_phone_numbers df = Inr df'
          \<and> field df' (rows df' ! i) ''phone'' = Some (StrV (''+601'' @ py_str v))
          \<and> (py_str v = ''nan'' \<or> py_str v = ''None'')))"
proof -
  have n1: "format_number NaN = StrV ''+601nan''" by code_simp
  have n2: "format_number NoneV = StrV ''+601None''" by code_simp
  have "\<exists>df'. format_phone_numbers df = Inr df'
          \<and> field df' (rows df' ! i) ''phone'' = Some (StrV (''+601'' @ py_str v))
          \<and> (py_str v = ''nan'' \<or> py_str v = ''None'')"
    if h: "wf_frame df" "''phone'' \<in> set (columns df)" "i < length (rows df)" "\<not> notna v"
      "field df (rows df ! i) ''phone'' = Some v"
  proof -
    from h(4) have v: "v = NaN \<or> v = NoneV" by (simp add: notna_def)
    then have fv: "format_number v = StrV (''+601'' @ py_str v)"
      and sv: "py_str v = ''nan'' \<or> py_str v = ''None''"
      using n1 n2 by (auto simp: py_str_def)
    from format_phone_numbers_rows[OF h(1,2)] obtain df' where
      d: "format_phone_numbers df = Inr df'"
      "\<forall>i<length (rows df). \<forall>c. field df' (rows df' ! i) c =
                 (if c = ''phone'' then map_option format_number (field df (rows df ! i) c)
                  else field df (rows df ! i) c)" by blast
    from d(2) h(3,5) fv have "field df' (rows df' ! i) ''phone'' = Some (StrV (''+601'' @ py_str v))"
      by simp
    with d(1) sv show ?thesis by blast
  qed
  with n1 n2 show ?thesis by blast
qed

text \<open>The statement at the second record of the sample upload, whose phone value is
  \<open>NaN\<close>.\<close>

theorem format_number_missing_witness:
  "wf_frame (rename_columns sample_raw) \<and> ''phone'' \<in> set (columns (rename_columns sample_raw))
   \<and> 1 < length (rows (rename_columns sample_raw)) \<and> \<not> notna NaN
   \<and> field (rename_columns sample_raw) (rows (rename_columns sample_raw) ! 1) ''phone'' = Some NaN
   \<and> (\<exists>df'. format_phone_numbers (rename_columns sample_raw) = Inr df'
          \<and> field df' (rows df' ! 1) ''phone'' = Some (StrV ''+601nan''))"
proof -
  have wf: "wf_frame (rename_columns sample_raw)" by code_simp
  have ph: "''phone'' \<in> set (columns (rename_columns sample_raw))" by code_simp
  have n1: "1 < length (rows (rename_columns sample_raw))" by code_simp
  have na: "\<not> notna NaN" by (simp add: notna_def)
  have f1: "field (rename_columns sample_raw) (rows (rename_columns sample_raw) ! 1) ''phone'' = Some NaN"
    by code_simp
  have s: "py_str NaN = ''nan''" by (simp add: py_str_def)
  from format_number_missing[of "rename_columns sample_raw" 1 NaN] wf ph n1 na f1
  have "\<exists>df'. format_phone_numbers (rename_columns sample_raw) = Inr df'
          \<and> field df' (rows df' ! 1) ''phone'' = Some (StrV (''+601'' @ py_str NaN))"
    by blast
  then have "\<exists>df'. format_phone_numbers (rename_columns sample_raw) = Inr df'
          \<and> field df' (rows df' ! 1) ''phone'' = Some (StrV ''+601nan'')"
    by (simp add: s)
  with wf ph n1 na f1 show ?thesis by blast
qed

text \<open>C10 as stated names \<open>+601nan\<close> for every missing value; \<open>None\<close>, which is what a JSON
  \<open>null\<close> becomes, is missing and gives another text.\<close>

theorem format_number_none_counterexample:
  "\<not> notna NoneV \<and> format_number NoneV \<noteq> StrV ''+601nan''"
  by code_simp

end
